theory Spec2Isabelle
  imports Main
begin

section \<open>Python values\<close>

text \<open>
  The values that travel through the service: what \<^verbatim>\<open>json.loads\<close> returns for a request body,
  what \<^verbatim>\<open>BaseModel.dict()\<close> hands to the JSON encoder, and what the handlers put into an
  envelope. A \<^verbatim>\<open>dict\<close> is an association list in insertion order. Floats are left out.
\<close>

record datetime =
  dt_year :: nat
  dt_month :: nat
  dt_day :: nat
  dt_hour :: nat
  dt_minute :: nat
  dt_second :: nat
  dt_microsecond :: nat
  dt_tzinfo :: "int option"
    \<comment> \<open>\<^verbatim>\<open>None\<close> for a naive datetime, otherwise the UTC offset in minutes;
        \<^verbatim>\<open>timezone.utc\<close> is \<open>Some 0\<close>\<close>

datatype pyval =
    PyNone
  | PyBool bool
  | PyInt int
  | PyStr string
  | PyUUID string
  | PyDatetime datetime
  | PyList "pyval list"
  | PyDict "(string \<times> pyval) list"

type_synonym pydict = "(string \<times> pyval) list"

text \<open>\<^verbatim>\<open>type(v).__name__\<close>\<close>

fun py_type_name :: "pyval \<Rightarrow> string" where
  "py_type_name PyNone = ''NoneType''"
| "py_type_name (PyBool _) = ''bool''"
| "py_type_name (PyInt _) = ''int''"
| "py_type_name (PyStr _) = ''str''"
| "py_type_name (PyUUID _) = ''UUID''"
| "py_type_name (PyDatetime _) = ''datetime''"
| "py_type_name (PyList _) = ''list''"
| "py_type_name (PyDict _) = ''dict''"

section \<open>Exceptions\<close>

text \<open>
  An exception object, as far as the middleware looks at it: the name of its class
  (\<^verbatim>\<open>type(e).__name__\<close>), the names of the classes it inherits from (the rest of the method
  resolution order, which decides every \<^verbatim>\<open>except\<close> clause), \<^verbatim>\<open>str(e)\<close>, and, for pydantic's
  \<^verbatim>\<open>ValidationError\<close>, the text of \<^verbatim>\<open>e.json(indent=0)\<close>.
\<close>

record pyexc =
  exc_type :: string
  exc_bases :: "string list"
  exc_str :: string
  exc_json :: string

definition isinstance :: "pyexc \<Rightarrow> string \<Rightarrow> bool" where
  "isinstance e cls = (cls = exc_type e \<or> cls \<in> set (exc_bases e))"

definition builtin_exception :: "string \<Rightarrow> string list \<Rightarrow> string \<Rightarrow> pyexc" where
  "builtin_exception name bases msg =
     \<lparr>exc_type = name, exc_bases = bases @ [''Exception'', ''BaseException'', ''object''],
      exc_str = msg, exc_json = []\<rparr>"

definition TypeError :: "string \<Rightarrow> pyexc" where
  "TypeError msg = builtin_exception ''TypeError'' [] msg"

definition AttributeError :: "string \<Rightarrow> pyexc" where
  "AttributeError msg = builtin_exception ''AttributeError'' [] msg"

text \<open>
  Modelled from the spec: \<^verbatim>\<open>service/middleware/exceptions.py\<close>, which declares
  \<^verbatim>\<open>BadRequestError\<close>, is not among the sources. The spec speaks of a ``\<^verbatim>\<open>BadRequest\<close> carrying
  the parse error text'': the class is taken to derive directly from \<^verbatim>\<open>Exception\<close> and to print
  as the message it was built with.
\<close>

definition BadRequestError :: "string \<Rightarrow> pyexc" where
  "BadRequestError msg = builtin_exception ''BadRequestError'' [] msg"

text \<open>\<^verbatim>\<open>orjson.JSONEncodeError\<close> is a subclass of \<^verbatim>\<open>TypeError\<close>.\<close>

definition JSONEncodeError :: "string \<Rightarrow> pyexc" where
  "JSONEncodeError msg = builtin_exception ''JSONEncodeError'' [''TypeError''] msg"

text \<open>\<^verbatim>\<open>json.JSONDecodeError\<close> is a subclass of \<^verbatim>\<open>ValueError\<close>.\<close>

definition JSONDecodeError :: "string \<Rightarrow> pyexc" where
  "JSONDecodeError msg = builtin_exception ''JSONDecodeError'' [''ValueError''] msg"


text \<open>
  pydantic's \<^verbatim>\<open>ValidationError\<close>, a subclass of \<^verbatim>\<open>ValueError\<close>, with the text of \<^verbatim>\<open>str(e)\<close> and
  of \<^verbatim>\<open>e.json(indent=0)\<close>.
\<close>

definition ValidationError :: "string \<Rightarrow> string \<Rightarrow> pyexc" where
  "ValidationError msg js =
     \<lparr>exc_type = ''ValidationError'',
      exc_bases = [''Representation'', ''ValueError'', ''Exception'', ''BaseException'', ''object''],
      exc_str = msg, exc_json = js\<rparr>"

section \<open>The JSON encoder\<close>

subsection \<open>Text of numbers and strings\<close>

fun nat_to_str :: "nat \<Rightarrow> string" where
  "nat_to_str n =
     (if n < 10 then [char_of (48 + n)] else nat_to_str (n div 10) @ [char_of (48 + n mod 10)])"

declare nat_to_str.simps [simp del]

definition int_to_str :: "int \<Rightarrow> string" where
  "int_to_str i = (if i < 0 then CHR ''-'' # nat_to_str (nat (- i)) else nat_to_str (nat i))"

definition zero_pad :: "nat \<Rightarrow> nat \<Rightarrow> string" where
  "zero_pad width n = replicate (width - length (nat_to_str n)) CHR ''0'' @ nat_to_str n"

definition hex_digit :: "nat \<Rightarrow> char" where
  "hex_digit n = (if n < 10 then char_of (48 + n) else char_of (87 + n))"

text \<open>
  \<^verbatim>\<open>orjson\<close> escapes the quote, the backslash and the control characters below U+0020, and
  writes every other character as it is.
\<close>

definition escape_char :: "char \<Rightarrow> string" where
  "escape_char c =
     (if c = CHR 0x22 then [CHR 0x5C, CHR 0x22]
      else if c = CHR 0x5C then [CHR 0x5C, CHR 0x5C]
      else if c = CHR 0x08 then [CHR 0x5C, CHR ''b'']
      else if c = CHR 0x09 then [CHR 0x5C, CHR ''t'']
      else if c = CHR 0x0A then [CHR 0x5C, CHR ''n'']
      else if c = CHR 0x0C then [CHR 0x5C, CHR ''f'']
      else if c = CHR 0x0D then [CHR 0x5C, CHR ''r'']
      else if (of_char c :: nat) < 32
        then [CHR 0x5C, CHR ''u'', CHR ''0'', CHR ''0'',
              hex_digit (of_char c div 16), hex_digit (of_char c mod 16)]
      else [c])"

definition json_string :: "string \<Rightarrow> string" where
  "json_string s = CHR 0x22 # concat (map escape_char s) @ [CHR 0x22]"

fun join_comma :: "string list \<Rightarrow> string" where
  "join_comma [] = []"
| "join_comma [s] = s"
| "join_comma (s # t # ss) = s @ CHR '','' # join_comma (t # ss)"

subsection \<open>\<^verbatim>\<open>orjson.dumps\<close>\<close>

text \<open>
  The two option flags the service passes. \<^verbatim>\<open>OPT_OMIT_MICROSECONDS\<close> drops the fraction of a
  second; \<^verbatim>\<open>OPT_UTC_Z\<close> writes a zero UTC offset as \<^verbatim>\<open>Z\<close> instead of \<^verbatim>\<open>+00:00\<close>. A naive
  datetime is written without any offset (the flag \<^verbatim>\<open>OPT_NAIVE_UTC\<close>, which would add one, is not
  passed).
\<close>

record orjson_options =
  OPT_OMIT_MICROSECONDS :: bool
  OPT_UTC_Z :: bool

definition render_offset :: "orjson_options \<Rightarrow> int option \<Rightarrow> string" where
  "render_offset opts tz =
     (case tz of
        None \<Rightarrow> []
      | Some m \<Rightarrow>
          if m = 0 \<and> OPT_UTC_Z opts then ''Z''
          else (if m < 0 then ''-'' else ''+'')
               @ zero_pad 2 (nat \<bar>m\<bar> div 60) @ '':'' @ zero_pad 2 (nat \<bar>m\<bar> mod 60))"

definition render_datetime :: "orjson_options \<Rightarrow> datetime \<Rightarrow> string" where
  "render_datetime opts d =
     zero_pad 4 (dt_year d) @ ''-'' @ zero_pad 2 (dt_month d) @ ''-'' @ zero_pad 2 (dt_day d)
     @ ''T'' @ zero_pad 2 (dt_hour d) @ '':'' @ zero_pad 2 (dt_minute d)
     @ '':'' @ zero_pad 2 (dt_second d)
     @ (if dt_microsecond d = 0 \<or> OPT_OMIT_MICROSECONDS opts then []
        else ''.'' @ zero_pad 6 (dt_microsecond d))
     @ render_offset opts (dt_tzinfo d)"

text \<open>
  The encoder proper. \<open>None\<close> stands for \<^verbatim>\<open>JSONEncodeError\<close>, which \<^verbatim>\<open>orjson\<close> raises for an
  integer outside the 64-bit range.
\<close>

fun orjson_render :: "orjson_options \<Rightarrow> pyval \<Rightarrow> string option" where
  "orjson_render opts PyNone = Some ''null''"
| "orjson_render opts (PyBool b) = Some (if b then ''true'' else ''false'')"
| "orjson_render opts (PyInt i) =
     (if - (2 ^ 63) \<le> i \<and> i < 2 ^ 64 then Some (int_to_str i) else None)"
| "orjson_render opts (PyStr s) = Some (json_string s)"
| "orjson_render opts (PyUUID u) = Some (json_string u)"
| "orjson_render opts (PyDatetime d) = Some (json_string (render_datetime opts d))"
| "orjson_render opts (PyList xs) =
     map_option (\<lambda>ss. ''['' @ join_comma ss @ '']'') (those (map (orjson_render opts) xs))"
| "orjson_render opts (PyDict kvs) =
     map_option (\<lambda>ss. ''{'' @ join_comma ss @ ''}'')
       (those (map (\<lambda>kv. map_option (\<lambda>s. json_string (fst kv) @ '':'' @ s)
                                (orjson_render opts (snd kv))) kvs))"

definition orjson_lib_dumps :: "orjson_options \<Rightarrow> pyval \<Rightarrow> pyexc + string" where
  "orjson_lib_dumps opts v =
     (case orjson_render opts v of
        None \<Rightarrow> Inl (JSONEncodeError ''Integer exceeds 64-bit range'')
      | Some s \<Rightarrow> Inr s)"

section \<open>The typed envelope model (\<^verbatim>\<open>data_classes/base.py\<close>)\<close>

subsection \<open>\<^verbatim>\<open>orjson_dumps\<close>\<close>

text \<open>\<^verbatim>\<open>value.replace(tzinfo=timezone.utc)\<close>: the clock fields stay, the zone becomes UTC.\<close>

definition replace_tzinfo_utc :: "datetime \<Rightarrow> datetime" where
  "replace_tzinfo_utc d = d\<lparr>dt_tzinfo := Some 0\<rparr>"

text \<open>
  The loop of \<^verbatim>\<open>orjson_dumps\<close> updates the dictionary in place; the model returns the updated
  dictionary. \<open>utc_inner_item\<close> is the body of the innermost loop (over the items of a dict
  inside a list), \<open>utc_list_element\<close> the loop over the elements of a list, \<open>utc_item\<close> the body
  of the outer loop over the items of \<^verbatim>\<open>v\<close>.
\<close>

definition utc_inner_item :: "string \<times> pyval \<Rightarrow> string \<times> pyval" where
  "utc_inner_item kv =
     (case snd kv of
        PyDatetime vvalue \<Rightarrow> (fst kv, PyDatetime (replace_tzinfo_utc vvalue))
      | _ \<Rightarrow> kv)"

definition utc_list_element :: "pyval \<Rightarrow> pyval" where
  "utc_list_element vv =
     (case vv of
        PyDict items \<Rightarrow> PyDict (map utc_inner_item items)
      | _ \<Rightarrow> vv)"

definition utc_item :: "string \<times> pyval \<Rightarrow> string \<times> pyval" where
  "utc_item kv =
     (case snd kv of
        PyList value \<Rightarrow> (fst kv, PyList (map utc_list_element value))
      | PyDatetime value \<Rightarrow> (fst kv, PyDatetime (replace_tzinfo_utc value))
      | _ \<Rightarrow> kv)"

definition service_options :: orjson_options where
  "service_options = \<lparr>OPT_OMIT_MICROSECONDS = True, OPT_UTC_Z = True\<rparr>"

definition orjson_dumps :: "pydict \<Rightarrow> pyexc + string" where
  "orjson_dumps v = orjson_lib_dumps service_options (PyDict (map utc_item v))"

subsection \<open>Models\<close>

text \<open>
  A pydantic object as the middleware sees it: the dictionary \<^verbatim>\<open>.dict()\<close> returns and the
  \<^verbatim>\<open>json_dumps\<close> function of its \<^verbatim>\<open>Config\<close>. \<^verbatim>\<open>BaseModel.json()\<close> applies the second to the
  first. Every model of the service derives from \<^verbatim>\<open>BaseClass\<close>, whose \<^verbatim>\<open>Config\<close> sets
  \<^verbatim>\<open>json_dumps = orjson_dumps\<close>.
\<close>

record pymodel =
  model_dict :: pydict
  model_json_dumps :: "pydict \<Rightarrow> pyexc + string"

definition model_json :: "pymodel \<Rightarrow> pyexc + string" where
  "model_json m = model_json_dumps m (model_dict m)"

definition BaseClass :: "pydict \<Rightarrow> pymodel" where
  "BaseClass d = \<lparr>model_dict = d, model_json_dumps = orjson_dumps\<rparr>"

record ErrorResult =
  error_type :: string
  error_message :: string

record ResponseFailure =
  failure_success :: bool
  failure_result :: "ErrorResult option"

record ResponseSuccess =
  success_success :: bool
  success_result :: pyval

definition ErrorResult_dict :: "ErrorResult \<Rightarrow> pydict" where
  "ErrorResult_dict r =
     [(''error_type'', PyStr (error_type r)), (''error_message'', PyStr (error_message r))]"

definition ResponseFailure_dict :: "ResponseFailure \<Rightarrow> pydict" where
  "ResponseFailure_dict f =
     [(''success'', PyBool (failure_success f)),
      (''result'', case failure_result f of
                     None \<Rightarrow> PyNone
                   | Some r \<Rightarrow> PyDict (ErrorResult_dict r))]"

definition ResponseSuccess_dict :: "ResponseSuccess \<Rightarrow> pydict" where
  "ResponseSuccess_dict s =
     [(''success'', PyBool (success_success s)), (''result'', success_result s)]"

definition ResponseFailure_json :: "ResponseFailure \<Rightarrow> pyexc + string" where
  "ResponseFailure_json f = model_json (BaseClass (ResponseFailure_dict f))"

definition ResponseSuccess_json :: "ResponseSuccess \<Rightarrow> pyexc + string" where
  "ResponseSuccess_json s = model_json (BaseClass (ResponseSuccess_dict s))"

text \<open>
  \<^verbatim>\<open>ResponseFailure(result=ErrorResult(error_type=type(e).__name__, error_message=str(e)))\<close>,
  with \<^verbatim>\<open>success\<close> at its default.
\<close>

definition failure_of :: "pyexc \<Rightarrow> ResponseFailure" where
  "failure_of e =
     \<lparr>failure_success = False,
      failure_result = Some \<lparr>error_type = exc_type e, error_message = exc_str e\<rparr>\<rparr>"

section \<open>Requests, responses and the request context\<close>

text \<open>
  The parts of an \<^verbatim>\<open>aiohttp\<close> request the middleware reads. \<open>req_headers\<close> and \<open>req_cookies\<close>
  are the dictionaries \<^verbatim>\<open>dict(request.headers)\<close> and \<^verbatim>\<open>dict(request.cookies)\<close>; \<open>req_text\<close>
  and \<open>req_json\<close> are what \<^verbatim>\<open>await request.text()\<close> and \<^verbatim>\<open>await request.json()\<close> return or
  raise.
\<close>

record request =
  req_url :: string
  req_method :: string
  req_headers :: "(string \<times> string) list"
  req_cookies :: "(string \<times> string) list"
  req_text :: "pyexc + string"
  req_json :: "pyexc + pyval"

record web_response =
  resp_status :: nat
  resp_text :: "string option"
  resp_content_type :: string

text \<open>\<^verbatim>\<open>web.json_response(text=...)\<close>\<close>

definition json_response :: "string \<Rightarrow> web_response" where
  "json_response t =
     \<lparr>resp_status = 200, resp_text = Some t, resp_content_type = ''application/json''\<rparr>"

text \<open>
  What a handler returns: a pydantic object, an \<^verbatim>\<open>aiohttp\<close> response, or anything else.
\<close>

datatype hvalue =
    ModelValue pymodel
  | ResponseValue web_response
  | OtherValue pyval

typedecl pyfloat

record ELKLog =
  log_type :: string
  log_request_uuid :: string
  log_url :: string
  log_method :: string
  log_body :: pyval

record ELKRequestLog = ELKLog +
  log_headers :: "(string \<times> string) list"
  log_cookies :: "(string \<times> string) list"

record ELKResponseLog = ELKLog +
  log_status_code :: nat
  log_execution_time :: pyfloat

record ELKErrorLog = ELKLog +
  log_error_status_code :: nat
  log_error_info :: ResponseFailure
  log_traceback :: string

datatype log_extra =
    RequestExtra ELKRequestLog
  | ResponseExtra ELKResponseLog
  | ErrorExtra ELKErrorLog

datatype log_level = INFO | ERROR

record log_record =
  rec_level :: log_level
  rec_msg :: string
  rec_extra :: log_extra

text \<open>
  The mutable state of one request: the \<^verbatim>\<open>data\<close> key of the request mapping, counters of
  the assignments to that key and of the calls of \<^verbatim>\<open>request.json()\<close>, and the records handed
  to the log sink.
\<close>

record 'o world =
  w_data :: "'o option"
  w_data_sets :: nat
  w_json_reads :: nat
  w_sink :: "log_record list"

definition initial_world :: "'o world" where
  "initial_world = \<lparr>w_data = None, w_data_sets = 0, w_json_reads = 0, w_sink = []\<rparr>"

text \<open>\<^verbatim>\<open>request["data"] = obj\<close>\<close>

definition set_data :: "'o \<Rightarrow> 'o world \<Rightarrow> 'o world" where
  "set_data obj w = w\<lparr>w_data := Some obj, w_data_sets := Suc (w_data_sets w)\<rparr>"

text \<open>
  Something that can be awaited with the request: a route handler or the rest of the
  middleware chain. It raises or returns, and may change the request state.
\<close>

type_synonym 'o callable = "request \<Rightarrow> 'o world \<Rightarrow> (pyexc + hvalue) \<times> 'o world"

section \<open>Handler annotations\<close>

text \<open>
  A class that can be called with keyword arguments: the name the interpreter prints for it and
  what \<^verbatim>\<open>cls(**kwargs)\<close> returns or raises.
\<close>

record 'o pyclass =
  cls_name :: string
  cls_init :: "pydict \<Rightarrow> pyexc + 'o"

text \<open>
  What \<^verbatim>\<open>handler.__annotations__["data"]\<close> can be, as far as \<^verbatim>\<open>prepare_data\<close> tells the cases
  apart:
  \<^item> \<open>Model\<close>: a class for which \<^verbatim>\<open>issubclass(annotation, BaseModel)\<close> holds (such a class has
    no attribute \<^verbatim>\<open>__args__\<close>);
  \<^item> \<open>PlainClass\<close>: any other class;
  \<^item> \<open>Generic\<close>: not a class, with an attribute \<^verbatim>\<open>__args__\<close>, as \<^verbatim>\<open>Union[A, B]\<close> is;
  \<^item> \<open>Opaque\<close>: not a class and without \<^verbatim>\<open>__args__\<close> (a string, \<^verbatim>\<open>None\<close>); the argument is the
    name of its type.
\<close>

datatype 'o annotation =
    Model "'o pyclass"
  | PlainClass
  | Generic "'o pyclass list"
  | Opaque string

record 'o handler =
  handler_data_annotation :: "'o annotation option"
  handler_call :: "'o callable"

text \<open>
  \<^verbatim>\<open>cls(**request_json)\<close>: unpacking anything but a mapping raises \<^verbatim>\<open>TypeError\<close> before the
  class is called.
\<close>

definition call_kwargs :: "'o pyclass \<Rightarrow> pyval \<Rightarrow> pyexc + 'o" where
  "call_kwargs cls request_json =
     (case request_json of
        PyDict kwargs \<Rightarrow> cls_init cls kwargs
      | _ \<Rightarrow> Inl (TypeError (cls_name cls @ ''() argument after ** must be a mapping, not ''
                              @ py_type_name request_json)))"

text \<open>\<^verbatim>\<open>annotation.__args__\<close>\<close>

definition get_args :: "'o annotation \<Rightarrow> pyexc + 'o pyclass list" where
  "get_args annotation =
     (case annotation of
        Generic classes \<Rightarrow> Inr classes
      | Model cls \<Rightarrow>
          Inl (AttributeError (''type object '' @ [CHR 0x27] @ cls_name cls @ [CHR 0x27]
                               @ '' has no attribute '' @ [CHR 0x27] @ ''__args__'' @ [CHR 0x27]))
      | PlainClass \<Rightarrow>
          Inl (AttributeError (''type object has no attribute '' @ [CHR 0x27] @ ''__args__''
                               @ [CHR 0x27]))
      | Opaque tname \<Rightarrow>
          Inl (AttributeError ([CHR 0x27] @ tname @ [CHR 0x27] @ '' object has no attribute ''
                               @ [CHR 0x27] @ ''__args__'' @ [CHR 0x27])))"

section \<open>The validation pipeline (\<^verbatim>\<open>MiddlewareMain.prepare_data\<close>)\<close>

text \<open>
  The \<^verbatim>\<open>for single_class in classes\<close> loop, with its two local variables. A
  \<^verbatim>\<open>ValidationError\<close> is recorded and the loop goes on; any other exception leaves the loop.
\<close>

fun union_loop ::
  "'o pyclass list \<Rightarrow> pyval \<Rightarrow> nat \<Rightarrow> string \<Rightarrow> 'o world \<Rightarrow> (pyexc + nat \<times> string) \<times> 'o world"
where
  "union_loop [] request_json matched_classes_number validation_error w =
     (Inr (matched_classes_number, validation_error), w)"
| "union_loop (single_class # classes) request_json matched_classes_number validation_error w =
     (case call_kwargs single_class request_json of
        Inr obj \<Rightarrow>
          union_loop classes request_json (matched_classes_number + 1) validation_error
            (set_data obj w)
      | Inl e \<Rightarrow>
          if isinstance e ''ValidationError''
          then union_loop classes request_json matched_classes_number (exc_str e) w
          else (Inl e, w))"

text \<open>The body of \<^verbatim>\<open>except TypeError:\<close>.\<close>

definition except_TypeError ::
  "'o annotation \<Rightarrow> pyval \<Rightarrow> 'o world \<Rightarrow> (pyexc + unit) \<times> 'o world"
where
  "except_TypeError annotation request_json w =
     (case get_args annotation of
        Inl e \<Rightarrow> (Inl e, w)
      | Inr classes \<Rightarrow>
          (case union_loop classes request_json 0 [] w of
             (Inl e, w') \<Rightarrow> (Inl e, w')
           | (Inr (matched_classes_number, validation_error), w') \<Rightarrow>
               if matched_classes_number = 0 then (Inl (BadRequestError validation_error), w')
               else if matched_classes_number = 1 then (Inr (), w')
               else (Inl (BadRequestError
                            ''Request matches several of the classes in the union.''), w')))"

text \<open>The inner \<^verbatim>\<open>try\<close> block: \<^verbatim>\<open>issubclass\<close> raises \<^verbatim>\<open>TypeError\<close> for anything but a class.\<close>

definition try_single ::
  "'o annotation \<Rightarrow> pyval \<Rightarrow> 'o world \<Rightarrow> (pyexc + unit) \<times> 'o world"
where
  "try_single annotation request_json w =
     (case annotation of
        Model cls \<Rightarrow>
          (case call_kwargs cls request_json of
             Inr obj \<Rightarrow> (Inr (), set_data obj w)
           | Inl e \<Rightarrow> (Inl e, w))
      | PlainClass \<Rightarrow>
          (Inl (BadRequestError
                  ''Handler data annotation is not a subclass of pydantic.BaseModel.''), w)
      | _ \<Rightarrow> (Inl (TypeError ''issubclass() arg 1 must be a class''), w))"

definition validate_json ::
  "'o annotation \<Rightarrow> pyval \<Rightarrow> 'o world \<Rightarrow> (pyexc + unit) \<times> 'o world"
where
  "validate_json annotation request_json w =
     (case try_single annotation request_json w of
        (Inl e, w') \<Rightarrow>
          if isinstance e ''TypeError'' then except_TypeError annotation request_json w'
          else (Inl e, w')
      | (Inr u, w') \<Rightarrow> (Inr u, w'))"

text \<open>\<^verbatim>\<open>e.json(indent=0).replace("\n", "").replace('"', "'")\<close>\<close>

definition flatten_json :: "string \<Rightarrow> string" where
  "flatten_json s =
     map (\<lambda>c. if c = CHR 0x22 then CHR 0x27 else c) (filter (\<lambda>c. c \<noteq> CHR 0x0A) s)"

text \<open>The two outer \<^verbatim>\<open>except\<close> clauses.\<close>

definition to_bad_request :: "pyexc \<Rightarrow> pyexc" where
  "to_bad_request e =
     (if isinstance e ''ValidationError'' then BadRequestError (flatten_json (exc_json e))
      else if isinstance e ''Exception'' then BadRequestError (exc_str e)
      else e)"

text \<open>The whole \<^verbatim>\<open>if "data" in handler.__annotations__:\<close> block.\<close>

definition validation_phase ::
  "'o annotation \<Rightarrow> request \<Rightarrow> 'o world \<Rightarrow> (pyexc + unit) \<times> 'o world"
where
  "validation_phase annotation request w =
     (let w1 = w\<lparr>w_json_reads := Suc (w_json_reads w)\<rparr> in
      case req_json request of
        Inl e \<Rightarrow> (Inl (to_bad_request e), w1)
      | Inr request_json \<Rightarrow>
          (case validate_json annotation request_json w1 of
             (Inl e, w2) \<Rightarrow> (Inl (to_bad_request e), w2)
           | (Inr u, w2) \<Rightarrow> (Inr u, w2)))"

text \<open>What happens to the value the handler returned.\<close>

definition wrap_response :: "hvalue \<Rightarrow> pyexc + hvalue" where
  "wrap_response response =
     (case response of
        ModelValue m \<Rightarrow>
          (case model_json m of
             Inl e \<Rightarrow> Inl e
           | Inr t \<Rightarrow> Inr (ResponseValue (json_response t)))
      | _ \<Rightarrow> Inr response)"

text \<open>The first half of \<^verbatim>\<open>prepare_data\<close>, up to the call of the handler.\<close>

definition validate_request ::
  "request \<Rightarrow> 'o handler \<Rightarrow> 'o world \<Rightarrow> (pyexc + unit) \<times> 'o world"
where
  "validate_request request handler w =
     (case handler_data_annotation handler of
        None \<Rightarrow> (Inr (), w)
      | Some annotation \<Rightarrow> validation_phase annotation request w)"

definition prepare_data :: "request \<Rightarrow> 'o handler \<Rightarrow> 'o world \<Rightarrow> (pyexc + hvalue) \<times> 'o world" where
  "prepare_data request handler w =
     (case validate_request request handler w of
        (Inl e, w1) \<Rightarrow> (Inl e, w1)
      | (Inr u, w1) \<Rightarrow>
          (case handler_call handler request w1 of
             (Inl e, w2) \<Rightarrow> (Inl e, w2)
           | (Inr response, w2) \<Rightarrow> (wrap_response response, w2)))"

section \<open>The logging adapter (\<^verbatim>\<open>middleware/utils.py\<close>, \<^verbatim>\<open>middleware/logger.py\<close>)\<close>

text \<open>
  An \<^verbatim>\<open>ELKAsync\<close> object: \<open>elk_logger\<close> tells whether \<^verbatim>\<open>self.logger\<close> has been set by
  \<^verbatim>\<open>connection_open\<close>. Its methods forward a record only then.
\<close>

record ELKAsync =
  elk_logger :: bool

text \<open>
  What the surroundings supply to one request: the request identifier \<^verbatim>\<open>str(uuid.uuid4())\<close>,
  the logger found in \<^verbatim>\<open>request.app["ELKAsync"]\<close> (or passed as an argument), the two JSON
  parsers, pydantic's validation of the field \<^verbatim>\<open>body: Union[str, dict, list]\<close> and of the field
  \<^verbatim>\<open>status_code: int\<close> of the log records, the text of the formatted traceback, and the
  measured duration.
\<close>

record env =
  env_req_id :: string
  env_logger :: "ELKAsync option"
  env_orjson_loads :: "string \<Rightarrow> pyexc + pyval"
  env_json_loads :: "string \<Rightarrow> pyexc + pyval"
  env_body_field :: "pyval \<Rightarrow> pyexc + pyval"
  env_status_field :: "nat option \<Rightarrow> pyexc + nat"
  env_format_tb :: "pyexc \<Rightarrow> string"
  env_time_end :: pyfloat

text \<open>\<^verbatim>\<open>ELKAsync.info\<close> and \<^verbatim>\<open>ELKAsync.error\<close>\<close>

definition elk_emit :: "ELKAsync \<Rightarrow> log_level \<Rightarrow> string \<Rightarrow> log_extra \<Rightarrow> 'o world \<Rightarrow> 'o world" where
  "elk_emit logger level msg extra w =
     (if elk_logger logger
      then w\<lparr>w_sink := w_sink w @ [\<lparr>rec_level = level, rec_msg = msg, rec_extra = extra\<rparr>]\<rparr>
      else w)"

text \<open>
  \<^verbatim>\<open>get_request_body\<close> and \<^verbatim>\<open>get_response_body\<close> are only called with \<^verbatim>\<open>max_length\<close> at its
  default \<^verbatim>\<open>0\<close>, for which the truncation does nothing.
\<close>

definition get_request_body :: "env \<Rightarrow> request \<Rightarrow> pyexc + pyval" where
  "get_request_body ev request =
     (case req_text request of
        Inl e \<Rightarrow> Inl e
      | Inr body \<Rightarrow>
          (case env_orjson_loads ev body of
             Inr v \<Rightarrow> Inr v
           | Inl e \<Rightarrow> if isinstance e ''Exception'' then Inr (PyStr body) else Inl e))"

definition get_response_body :: "env \<Rightarrow> hvalue \<Rightarrow> pyexc + pyval" where
  "get_response_body ev response =
     (case response of
        ResponseValue r \<Rightarrow>
          (case resp_text r of
             None \<Rightarrow> Inr (PyStr [])
           | Some t \<Rightarrow>
               (case env_json_loads ev t of
                  Inr v \<Rightarrow> Inr v
                | Inl e \<Rightarrow>
                    if isinstance e ''JSONDecodeError'' then Inr (PyStr t)
                    else if isinstance e ''Exception'' then Inr (PyStr [])
                    else Inl e))
      | _ \<Rightarrow> Inr (PyStr []))"

definition get_response_status_code :: "hvalue \<Rightarrow> nat option" where
  "get_response_status_code response =
     (case response of
        ResponseValue r \<Rightarrow> Some (resp_status r)
      | _ \<Rightarrow> None)"

text \<open>\<^verbatim>\<open>headers.pop("Authorization", None)\<close>\<close>

definition dict_pop :: "string \<Rightarrow> (string \<times> 'v) list \<Rightarrow> (string \<times> 'v) list" where
  "dict_pop key d = filter (\<lambda>kv. fst kv \<noteq> key) d"

definition log_request :: "env \<Rightarrow> request \<Rightarrow> 'o world \<Rightarrow> pyexc + 'o world" where
  "log_request ev request w =
     (case env_logger ev of
        None \<Rightarrow> Inr w
      | Some logger \<Rightarrow>
          (let headers = dict_pop ''Authorization'' (req_headers request) in
           case get_request_body ev request of
             Inl e \<Rightarrow> Inl e
           | Inr raw_body \<Rightarrow>
               (case env_body_field ev raw_body of
                  Inl e \<Rightarrow> Inl e
                | Inr body \<Rightarrow>
                    Inr (elk_emit logger INFO (''Request #'' @ env_req_id ev)
                           (RequestExtra
                              \<lparr>log_type = ''Request'', log_request_uuid = env_req_id ev,
                               log_url = req_url request, log_method = req_method request,
                               log_body = body, log_headers = headers,
                               log_cookies = req_cookies request\<rparr>) w))))"

definition log_response :: "env \<Rightarrow> request \<Rightarrow> hvalue \<Rightarrow> 'o world \<Rightarrow> pyexc + 'o world" where
  "log_response ev request response w =
     (case env_logger ev of
        None \<Rightarrow> Inr w
      | Some logger \<Rightarrow>
          (case get_response_body ev response of
             Inl e \<Rightarrow> Inl e
           | Inr raw_body \<Rightarrow>
               (case env_body_field ev raw_body of
                  Inl e \<Rightarrow> Inl e
                | Inr body \<Rightarrow>
                    (case env_status_field ev (get_response_status_code response) of
                       Inl e \<Rightarrow> Inl e
                     | Inr status_code \<Rightarrow>
                         Inr (elk_emit logger INFO (''Response #'' @ env_req_id ev)
                                (ResponseExtra
                                   \<lparr>log_type = ''Response'', log_request_uuid = env_req_id ev,
                                    log_url = req_url request, log_method = req_method request,
                                    log_body = body, log_status_code = status_code,
                                    log_execution_time = env_time_end ev\<rparr>) w)))))"

definition log_error ::
  "env \<Rightarrow> request \<Rightarrow> ResponseFailure \<Rightarrow> nat \<Rightarrow> pyexc \<Rightarrow> 'o world \<Rightarrow> pyexc + 'o world"
where
  "log_error ev request response status_code exception w =
     (case env_logger ev of
        None \<Rightarrow> Inr w
      | Some logger \<Rightarrow>
          (let tb = env_format_tb ev exception in
           case get_request_body ev request of
             Inl e \<Rightarrow> Inl e
           | Inr raw_body \<Rightarrow>
               (case env_body_field ev raw_body of
                  Inl e \<Rightarrow> Inl e
                | Inr body \<Rightarrow>
                    Inr (elk_emit logger ERROR (''Error #'' @ env_req_id ev)
                           (ErrorExtra
                              \<lparr>log_type = ''Error'', log_request_uuid = env_req_id ev,
                               log_url = req_url request, log_method = req_method request,
                               log_body = body, log_error_status_code = status_code,
                               log_error_info = response, log_traceback = tb\<rparr>) w))))"

section \<open>The error translation layer (\<^verbatim>\<open>MiddlewareMain.server_error_handler\<close>)\<close>

text \<open>
  How the middleware ends: it returns the handler's response, it raises one of \<^verbatim>\<open>aiohttp\<close>'s
  HTTP exceptions (which the server sends as the response it is), or an exception leaves it.
\<close>

datatype outcome =
    Returned hvalue
  | RaisedHTTP web_response
  | Propagated pyexc

text \<open>
  \<^verbatim>\<open>web.HTTPUnauthorized\<close>, \<^verbatim>\<open>web.HTTPBadRequest\<close>, \<^verbatim>\<open>web.HTTPOk\<close> and
  \<^verbatim>\<open>web.HTTPInternalServerError\<close>, built with \<^verbatim>\<open>text\<close> and \<^verbatim>\<open>content_type\<close>.
\<close>

definition http_exception :: "nat \<Rightarrow> string \<Rightarrow> web_response" where
  "http_exception status t =
     \<lparr>resp_status = status, resp_text = Some t, resp_content_type = ''application/json''\<rparr>"

text \<open>The body of the \<^verbatim>\<open>try\<close> block.\<close>

definition try_handler :: "env \<Rightarrow> request \<Rightarrow> 'o callable \<Rightarrow> 'o world \<Rightarrow> (pyexc + hvalue) \<times> 'o world" where
  "try_handler ev request handler w =
     (case log_request ev request w of
        Inl e \<Rightarrow> (Inl e, w)
      | Inr w1 \<Rightarrow>
          (case handler request w1 of
             (Inl e, w2) \<Rightarrow> (Inl e, w2)
           | (Inr response, w2) \<Rightarrow>
               (case log_response ev request response w2 of
                  Inl e \<Rightarrow> (Inl e, w2)
                | Inr w3 \<Rightarrow> (Inr response, w3))))"

text \<open>The common body of the four \<^verbatim>\<open>except\<close> clauses, which differ in the status only.\<close>

definition respond_failure :: "env \<Rightarrow> request \<Rightarrow> nat \<Rightarrow> pyexc \<Rightarrow> 'o world \<Rightarrow> outcome \<times> 'o world" where
  "respond_failure ev request status e w =
     (let response = failure_of e in
      case log_error ev request response status e w of
        Inl e' \<Rightarrow> (Propagated e', w)
      | Inr w' \<Rightarrow>
          (case ResponseFailure_json response of
             Inl e' \<Rightarrow> (Propagated e', w')
           | Inr t \<Rightarrow> (RaisedHTTP (http_exception status t), w')))"

definition server_error_handler :: "env \<Rightarrow> request \<Rightarrow> 'o callable \<Rightarrow> 'o world \<Rightarrow> outcome \<times> 'o world" where
  "server_error_handler ev request handler w =
     (case try_handler ev request handler w of
        (Inr response, w') \<Rightarrow> (Returned response, w')
      | (Inl e, w') \<Rightarrow>
          if isinstance e ''HTTPUnauthorized'' then respond_failure ev request 401 e w'
          else if isinstance e ''BadRequestError'' then respond_failure ev request 400 e w'
          else if isinstance e ''UserWarning'' then respond_failure ev request 200 e w'
          else if isinstance e ''Exception'' then respond_failure ev request 500 e w'
          else (Propagated e, w'))"

text \<open>
  The application of \<^verbatim>\<open>run_server.get_app\<close>: \<^verbatim>\<open>server_error_handler\<close> is the outer middleware,
  \<^verbatim>\<open>prepare_data\<close> the inner one.
\<close>

definition api_v1 :: "env \<Rightarrow> 'o handler \<Rightarrow> request \<Rightarrow> 'o world \<Rightarrow> outcome \<times> 'o world" where
  "api_v1 ev handler request w =
     server_error_handler ev request (\<lambda>request. prepare_data request handler) w"

section \<open>The JSON decoder\<close>

text \<open>
  \<^verbatim>\<open>orjson.loads\<close>, the \<^verbatim>\<open>json_loads\<close> of \<^verbatim>\<open>BaseClass.Config\<close>, as far as the values of this
  model go. A number with a fraction or an exponent would be a float and gives \<open>None\<close>, as
  does a \<^verbatim>\<open>\u\<close> escape of a code point beyond ASCII; otherwise \<open>None\<close> stands for
  \<^verbatim>\<open>JSONDecodeError\<close>. Characters above U+007F pass as the bytes of their encoding.
\<close>

definition is_ws :: "char \<Rightarrow> bool" where
  "is_ws c = (c = CHR 0x20 \<or> c = CHR 0x09 \<or> c = CHR 0x0A \<or> c = CHR 0x0D)"

definition skip_ws :: "string \<Rightarrow> string" where
  "skip_ws s = dropWhile is_ws s"

definition is_digit :: "char \<Rightarrow> bool" where
  "is_digit c = (48 \<le> (of_char c :: nat) \<and> (of_char c :: nat) \<le> 57)"

definition str_to_nat :: "string \<Rightarrow> nat" where
  "str_to_nat ds = foldl (\<lambda>n c. 10 * n + (of_char c - 48)) 0 ds"

definition hex_value :: "char \<Rightarrow> nat option" where
  "hex_value c =
     (let n = of_char c :: nat in
      if 48 \<le> n \<and> n \<le> 57 then Some (n - 48)
      else if 97 \<le> n \<and> n \<le> 102 then Some (n - 87)
      else if 65 \<le> n \<and> n \<le> 70 then Some (n - 55)
      else None)"

definition unescape :: "char \<Rightarrow> char option" where
  "unescape e =
     (if e = CHR 0x22 then Some (CHR 0x22)
      else if e = CHR 0x5C then Some (CHR 0x5C)
      else if e = CHR ''/'' then Some (CHR ''/'')
      else if e = CHR ''b'' then Some (CHR 0x08)
      else if e = CHR ''f'' then Some (CHR 0x0C)
      else if e = CHR ''n'' then Some (CHR 0x0A)
      else if e = CHR ''r'' then Some (CHR 0x0D)
      else if e = CHR ''t'' then Some (CHR 0x09)
      else None)"

text \<open>The characters of a string up to its closing quote, and what follows it.\<close>

fun parse_chars :: "string \<Rightarrow> (string \<times> string) option" where
  "parse_chars [] = None"
| "parse_chars (c # s) =
     (if c = CHR 0x22 then Some ([], s)
      else if c = CHR 0x5C then
        (case s of
           [] \<Rightarrow> None
         | e # s' \<Rightarrow>
             if e = CHR ''u'' then
               (case s' of
                  a # b # c' # d # s'' \<Rightarrow>
                    (case (hex_value a, hex_value b, hex_value c', hex_value d) of
                       (Some x3, Some x2, Some x1, Some x0) \<Rightarrow>
                         if ((x3 * 16 + x2) * 16 + x1) * 16 + x0 < 128
                         then map_option (\<lambda>(r, t). (char_of (((x3 * 16 + x2) * 16 + x1) * 16 + x0) # r, t))
                                (parse_chars s'')
                         else None
                     | _ \<Rightarrow> None)
                | _ \<Rightarrow> None)
             else
               (case unescape e of
                  None \<Rightarrow> None
                | Some ch \<Rightarrow> map_option (\<lambda>(r, t). (ch # r, t)) (parse_chars s')))
      else if (of_char c :: nat) < 32 then None
      else map_option (\<lambda>(r, t). (c # r, t)) (parse_chars s))"

definition parse_number :: "string \<Rightarrow> (pyval \<times> string) option" where
  "parse_number s =
     (let neg = (s \<noteq> [] \<and> hd s = CHR ''-'');
          s1 = (if neg then tl s else s);
          ds = takeWhile is_digit s1;
          rest = dropWhile is_digit s1;
          i = (if neg then - int (str_to_nat ds) else int (str_to_nat ds))
      in if ds = [] then None
         else if hd ds = CHR ''0'' \<and> 1 < length ds then None
         else if rest \<noteq> [] \<and> (hd rest = CHR ''.'' \<or> hd rest = CHR ''e'' \<or> hd rest = CHR ''E'') then None
         else if - (2 ^ 63) \<le> i \<and> i < 2 ^ 64 then Some (PyInt i, rest)
         else None)"


text \<open>
  A Python dictionary keeps the first position and the last value of a repeated key.
\<close>

fun dict_set :: "string \<Rightarrow> 'v \<Rightarrow> (string \<times> 'v) list \<Rightarrow> (string \<times> 'v) list" where
  "dict_set k v [] = [(k, v)]"
| "dict_set k v (kv # d) = (if fst kv = k then (k, v) # d else kv # dict_set k v d)"

definition dict_of_pairs :: "(string \<times> 'v) list \<Rightarrow> (string \<times> 'v) list" where
  "dict_of_pairs kvs = foldl (\<lambda>d kv. dict_set (fst kv) (snd kv) d) [] kvs"

text \<open>
  The parser of values, of the elements of an array after its opening bracket and of the
  members of an object after its opening brace. The first argument bounds the depth of the
  recursion; \<open>orjson_loads\<close> starts it above the length of the text, which is enough for
  every text (see \<open>fuel_le_length\<close> and \<open>parse_value_render\<close> below for the texts the
  encoder writes).
\<close>

fun parse_value :: "nat \<Rightarrow> string \<Rightarrow> (pyval \<times> string) option"
and parse_elements :: "nat \<Rightarrow> string \<Rightarrow> (pyval list \<times> string) option"
and parse_members :: "nat \<Rightarrow> string \<Rightarrow> (pydict \<times> string) option"
where
  "parse_value 0 s = None"
| "parse_value (Suc n) s =
     (case skip_ws s of
        [] \<Rightarrow> None
      | c # t \<Rightarrow>
          if c = CHR 0x22 then map_option (\<lambda>(x, r). (PyStr x, r)) (parse_chars t)
          else if c = CHR ''['' then
            (case skip_ws t of
               [] \<Rightarrow> None
             | c' # t' \<Rightarrow>
                 if c' = CHR '']'' then Some (PyList [], t')
                 else map_option (\<lambda>(xs, r). (PyList xs, r)) (parse_elements n t))
          else if c = CHR ''{'' then
            (case skip_ws t of
               [] \<Rightarrow> None
             | c' # t' \<Rightarrow>
                 if c' = CHR ''}'' then Some (PyDict [], t')
                 else map_option (\<lambda>(kvs, r). (PyDict (dict_of_pairs kvs), r)) (parse_members n t))
          else if take 4 (c # t) = ''null'' then Some (PyNone, drop 3 t)
          else if take 4 (c # t) = ''true'' then Some (PyBool True, drop 3 t)
          else if take 5 (c # t) = ''false'' then Some (PyBool False, drop 4 t)
          else parse_number (c # t))"
| "parse_elements 0 s = None"
| "parse_elements (Suc n) s =
     (case parse_value n s of
        None \<Rightarrow> None
      | Some (v, r) \<Rightarrow>
          (case skip_ws r of
             [] \<Rightarrow> None
           | c # t \<Rightarrow>
               if c = CHR '','' then map_option (\<lambda>(vs, r'). (v # vs, r')) (parse_elements n t)
               else if c = CHR '']'' then Some ([v], t)
               else None))"
| "parse_members 0 s = None"
| "parse_members (Suc n) s =
     (case skip_ws s of
        [] \<Rightarrow> None
      | q # t \<Rightarrow>
          if q \<noteq> CHR 0x22 then None
          else
            (case parse_chars t of
               None \<Rightarrow> None
             | Some (k, r) \<Rightarrow>
                 (case skip_ws r of
                    [] \<Rightarrow> None
                  | c # r1 \<Rightarrow>
                      if c \<noteq> CHR '':'' then None
                      else
                        (case parse_value n r1 of
                           None \<Rightarrow> None
                         | Some (v, r2) \<Rightarrow>
                             (case skip_ws r2 of
                                [] \<Rightarrow> None
                              | d # r3 \<Rightarrow>
                                  if d = CHR '','' then
                                    map_option (\<lambda>(kvs, r4). ((k, v) # kvs, r4)) (parse_members n r3)
                                  else if d = CHR ''}'' then Some ([(k, v)], r3)
                                  else None)))))"

definition orjson_loads :: "string \<Rightarrow> pyval option" where
  "orjson_loads s =
     (case parse_value (Suc (length s)) s of
        None \<Rightarrow> None
      | Some (v, r) \<Rightarrow> if skip_ws r = [] then Some v else None)"

section \<open>The statements of the specification\<close>

text \<open>
  The mapping table of the error translation layer: authentication failure 401, bad request
  400, business warning 200, anything else 500.
\<close>

definition mapped_status :: "pyexc \<Rightarrow> nat" where
  "mapped_status e =
     (if isinstance e ''HTTPUnauthorized'' then 401
      else if isinstance e ''BadRequestError'' then 400
      else if isinstance e ''UserWarning'' then 200
      else 500)"

text \<open>The wire format of a failure envelope with the given error type and message.\<close>

definition failure_body :: "string \<Rightarrow> string \<Rightarrow> string" where
  \<open>failure_body ty msg =
     ''{"success":false,"result":{"error_type":'' @ json_string ty
     @ '',"error_message":'' @ json_string msg @ ''}}''\<close>

text \<open>
  The validation of a union as the specification words it: construction is attempted against
  every alternative independently and the successes are counted; without a success the
  request fails with the last validation error, with exactly one it goes on with that object,
  with several it fails as ambiguous.
\<close>

definition successes :: "(pyexc + 'o) list \<Rightarrow> 'o list" where
  "successes rs = [obj. Inr obj \<leftarrow> rs]"

definition validation_errors :: "(pyexc + 'o) list \<Rightarrow> string list" where
  "validation_errors rs = [exc_str e. Inl e \<leftarrow> rs, isinstance e ''ValidationError'']"

definition union_claim :: "'o pyclass list \<Rightarrow> pyval \<Rightarrow> pyexc + 'o" where
  "union_claim classes request_json =
     (let attempts = map (\<lambda>cls. call_kwargs cls request_json) classes in
      case successes attempts of
        [] \<Rightarrow> Inl (BadRequestError
                    (case validation_errors attempts of [] \<Rightarrow> [] | errs \<Rightarrow> last errs))
      | [obj] \<Rightarrow> Inr obj
      | _ \<Rightarrow> Inl (BadRequestError ''Request matches several of the classes in the union.''))"

text \<open>
  A class behaves as a pydantic shape on given keyword arguments when it returns an object
  or raises \<^verbatim>\<open>ValidationError\<close>.
\<close>

definition validates_or_rejects :: "pydict \<Rightarrow> 'o pyclass \<Rightarrow> bool" where
  "validates_or_rejects kwargs cls =
     (case cls_init cls kwargs of
        Inr obj \<Rightarrow> True
      | Inl e \<Rightarrow> isinstance e ''ValidationError'')"

text \<open>
  The payloads JSON can carry as they are: \<^verbatim>\<open>None\<close>, booleans, integers of the 64-bit range,
  strings, lists, and dictionaries with distinct keys, all the way down.
\<close>

fun json_native :: "pyval \<Rightarrow> bool" where
  "json_native PyNone = True"
| "json_native (PyBool b) = True"
| "json_native (PyInt i) = (- (2 ^ 63) \<le> i \<and> i < 2 ^ 64)"
| "json_native (PyStr s) = True"
| "json_native (PyUUID u) = False"
| "json_native (PyDatetime d) = False"
| "json_native (PyList xs) = list_all json_native xs"
| "json_native (PyDict kvs) =
     (distinct (map fst kvs) \<and> list_all (\<lambda>kv. json_native (snd kv)) kvs)"

text \<open>
  The shapes an annotation offers: the class itself, or the alternatives of a union.
\<close>

definition annotation_classes :: "'o annotation \<Rightarrow> 'o pyclass list" where
  "annotation_classes annotation =
     (case annotation of
        Model cls \<Rightarrow> [cls]
      | Generic classes \<Rightarrow> classes
      | _ \<Rightarrow> [])"


section \<open>Auxiliary notions of the proofs\<close>

text \<open>
  What may follow a number, what may follow a value inside an array or object, the first
  character of a value, and a bound on the recursion depth the parser needs for a value.
\<close>

definition number_end :: "string \<Rightarrow> bool" where
  "number_end rest =
     (rest = [] \<or> \<not> is_digit (hd rest) \<and> hd rest \<noteq> CHR ''.'' \<and> hd rest \<noteq> CHR ''e''
                  \<and> hd rest \<noteq> CHR ''E'')"

definition delim :: "string \<Rightarrow> bool" where
  "delim rest = (rest = [] \<or> hd rest = CHR '','' \<or> hd rest = CHR '']'' \<or> hd rest = CHR ''}'')"

definition value_start :: "char \<Rightarrow> bool" where
  "value_start c = (c = CHR 0x22 \<or> c = CHR ''['' \<or> c = CHR ''{'' \<or> c = CHR ''n'' \<or> c = CHR ''t''
                    \<or> c = CHR ''f'' \<or> c = CHR ''-'' \<or> is_digit c)"

fun fuel_of :: "pyval \<Rightarrow> nat" where
  "fuel_of (PyList xs) = Suc (sum_list (map (\<lambda>x. Suc (fuel_of x)) xs))"
| "fuel_of (PyDict kvs) = Suc (sum_list (map (\<lambda>kv. Suc (fuel_of (snd kv))) kvs))"
| "fuel_of v = 1"

section \<open>Sample inputs\<close>

definition sample_env :: env where
  "sample_env =
     \<lparr>env_req_id = ''3f2b8c1e-6d0a-4c55-9b7e-0a1d2e3f4a5b'',
      env_logger = Some \<lparr>elk_logger = True\<rparr>,
      env_orjson_loads = (\<lambda>s. Inl (JSONDecodeError ''unexpected character'')),
      env_json_loads = (\<lambda>s. Inl (JSONDecodeError ''Expecting value'')),
      env_body_field =
        (\<lambda>v. case v of
               PyNone \<Rightarrow> Inl (ValidationError ''none is not an allowed value'' ''[]'')
             | _ \<Rightarrow> Inr v),
      env_status_field =
        (\<lambda>s. case s of
               None \<Rightarrow> Inl (ValidationError ''none is not an allowed value'' ''[]'')
             | Some n \<Rightarrow> Inr n),
      env_format_tb = (\<lambda>e. ''Traceback''),
      env_time_end = undefined\<rparr>"

definition sample_request :: request where
  \<open>sample_request =
     \<lparr>req_url = ''/api/v1/update'', req_method = ''POST'',
      req_headers = [(''Authorization'', ''Bearer s3cret''), (''Accept'', ''*/*'')],
      req_cookies = [(''session'', ''abc'')],
      req_text = Inr ''{"params":{"name":"Alpha"}}'',
      req_json = Inr (PyDict [(''params'', PyDict [(''name'', PyStr ''Alpha'')])])\<rparr>\<close>

definition project_not_found :: pyexc where
  "project_not_found =
     builtin_exception ''ProjectNotFound'' [''UserWarning'', ''Warning''] ''No such project.''"

definition raise_not_found :: "'o callable" where
  "raise_not_found request w = (Inl project_not_found, w)"

text \<open>
  Simplified stand-ins for three request classes of \<^verbatim>\<open>data_classes/project.py\<close>, used as
  concrete inputs only. \<^verbatim>\<open>RequestProjectRead\<close> and \<^verbatim>\<open>RequestProjectDelete\<close> declare the same
  field, \<^verbatim>\<open>params: List[UUID]\<close>.
\<close>

datatype request_data =
    ProjectCreateData string
  | ProjectReadData "string list"
  | ProjectDeleteData "string list"

definition uuid_list :: "pyval \<Rightarrow> string list option" where
  "uuid_list v =
     (case v of
        PyList xs \<Rightarrow> those (map (\<lambda>x. case x of PyStr s \<Rightarrow> Some s | _ \<Rightarrow> None) xs)
      | _ \<Rightarrow> None)"

definition RequestProjectCreate :: "request_data pyclass" where
  \<open>RequestProjectCreate =
     \<lparr>cls_name = ''RequestProjectCreate'',
      cls_init = (\<lambda>kwargs.
        case map_of kwargs ''params'' of
          Some (PyDict params) \<Rightarrow>
            (case map_of params ''name'' of
               Some (PyStr name) \<Rightarrow> Inr (ProjectCreateData name)
             | _ \<Rightarrow> Inl (ValidationError ''1 validation error for RequestProjectCreate: params -> name''
                                         ''[{"loc": ["params", "name"]}]''))
        | _ \<Rightarrow> Inl (ValidationError ''1 validation error for RequestProjectCreate: params''
                                    ''[{"loc": ["params"]}]''))\<rparr>\<close>

definition RequestProjectRead :: "request_data pyclass" where
  \<open>RequestProjectRead =
     \<lparr>cls_name = ''RequestProjectRead'',
      cls_init = (\<lambda>kwargs.
        case map_option uuid_list (map_of kwargs ''params'') of
          Some (Some ids) \<Rightarrow> Inr (ProjectReadData ids)
        | _ \<Rightarrow> Inl (ValidationError ''1 validation error for RequestProjectRead: params''
                                    ''[{"loc": ["params"]}]''))\<rparr>\<close>

definition RequestProjectDelete :: "request_data pyclass" where
  \<open>RequestProjectDelete =
     \<lparr>cls_name = ''RequestProjectDelete'',
      cls_init = (\<lambda>kwargs.
        case map_option uuid_list (map_of kwargs ''params'') of
          Some (Some ids) \<Rightarrow> Inr (ProjectDeleteData ids)
        | _ \<Rightarrow> Inl (ValidationError ''1 validation error for RequestProjectDelete: params''
                                    ''[{"loc": ["params"]}]''))\<rparr>\<close>

text \<open>Requests with other bodies: a JSON array, an empty list of identifiers.\<close>

definition array_request :: request where
  \<open>array_request = sample_request\<lparr>req_text := Inr ''[]'', req_json := Inr (PyList [])\<rparr>\<close>

definition ids_request :: request where
  \<open>ids_request =
     sample_request\<lparr>req_text := Inr ''{"params":[]}'',
                    req_json := Inr (PyDict [(''params'', PyList [])])\<rparr>\<close>

definition malformed_request :: request where
  \<open>malformed_request =
     sample_request\<lparr>req_text := Inr ''{"params":'',
                    req_json := Inl (JSONDecodeError ''Expecting value: line 1 column 11 (char 10)'')\<rparr>\<close>

text \<open>Handlers: one per kind of annotation the witnesses need.\<close>

definition returning :: "hvalue \<Rightarrow> 'o callable" where
  "returning response request w = (Inr response, w)"

definition health_check :: "request_data handler" where
  "health_check =
     \<lparr>handler_data_annotation = None,
      handler_call = returning (ResponseValue \<lparr>resp_status = 200, resp_text = Some ''200'',
                                              resp_content_type = ''text/plain''\<rparr>)\<rparr>"

definition create_handler :: "request_data handler" where
  "create_handler =
     \<lparr>handler_data_annotation = Some (Model RequestProjectCreate),
      handler_call = returning (OtherValue PyNone)\<rparr>"

definition delete_handler :: "request_data handler" where
  "delete_handler =
     \<lparr>handler_data_annotation = Some (Model RequestProjectDelete),
      handler_call =
        returning (ModelValue (BaseClass (ResponseSuccess_dict
                     \<lparr>success_success = True, success_result = PyDict []\<rparr>)))\<rparr>"

definition create_or_read_handler :: "request_data handler" where
  "create_or_read_handler =
     \<lparr>handler_data_annotation = Some (Generic [RequestProjectCreate, RequestProjectRead]),
      handler_call = returning (OtherValue PyNone)\<rparr>"

definition read_or_delete_handler :: "request_data handler" where
  "read_or_delete_handler =
     \<lparr>handler_data_annotation = Some (Generic [RequestProjectRead, RequestProjectDelete]),
      handler_call = returning (OtherValue PyNone)\<rparr>"

text \<open>The request state after \<^verbatim>\<open>log_request\<close> on the sample request.\<close>

definition sample_logged :: "request_data world" where
  \<open>sample_logged =
     \<lparr>w_data = None, w_data_sets = 0, w_json_reads = 0,
      w_sink =
        [\<lparr>rec_level = INFO, rec_msg = ''Request #3f2b8c1e-6d0a-4c55-9b7e-0a1d2e3f4a5b'',
          rec_extra = RequestExtra
            \<lparr>log_type = ''Request'', log_request_uuid = ''3f2b8c1e-6d0a-4c55-9b7e-0a1d2e3f4a5b'',
             log_url = ''/api/v1/update'', log_method = ''POST'',
             log_body = PyStr ''{"params":{"name":"Alpha"}}'',
             log_headers = [(''Accept'', ''*/*'')],
             log_cookies = [(''session'', ''abc'')]\<rparr>\<rparr>]\<rparr>\<close>

text \<open>
  Envelopes: a project as the database returns it (naive \<^verbatim>\<open>created\<close>, with microseconds),
  the response classes of \<^verbatim>\<open>data_classes/project.py\<close> as the dictionaries \<^verbatim>\<open>.dict()\<close> gives,
  and a success envelope with a payload made of JSON values only.
\<close>

definition sample_created :: datetime where
  "sample_created =
     \<lparr>dt_year = 2021, dt_month = 3, dt_day = 4, dt_hour = 5, dt_minute = 6, dt_second = 7,
      dt_microsecond = 123456, dt_tzinfo = None\<rparr>"

definition sample_project :: "datetime \<Rightarrow> pydict" where
  "sample_project created =
     [(''id'', PyUUID ''3f2b8c1e-6d0a-4c55-9b7e-0a1d2e3f4a5b''), (''name'', PyStr ''Alpha''),
      (''created'', PyDatetime created), (''updated'', PyNone)]"

definition ResponseProject :: "pydict \<Rightarrow> ResponseSuccess" where
  "ResponseProject project = \<lparr>success_success = True, success_result = PyDict project\<rparr>"

definition ResponseProjectSeveral :: "pydict list \<Rightarrow> ResponseSuccess" where
  "ResponseProjectSeveral projects =
     \<lparr>success_success = True, success_result = PyList (map PyDict projects)\<rparr>"

definition sample_success :: ResponseSuccess where
  "sample_success =
     \<lparr>success_success = True,
      success_result = PyDict [(''name'', PyStr ''Alpha''), (''tags'', PyList [PyInt (- 7), PyNone])]\<rparr>"





section \<open>Properties\<close>

subsection \<open>Exceptions and the failure envelope\<close>

lemma isinstance_builtin:
  "isinstance (builtin_exception name bases msg) cls \<longleftrightarrow>
     cls = name \<or> cls \<in> set bases \<or> cls = ''Exception'' \<or> cls = ''BaseException''
     \<or> cls = ''object''"
  by (auto simp: isinstance_def builtin_exception_def)

lemma BadRequestError_fields [simp]:
  "exc_type (BadRequestError msg) = ''BadRequestError''"
  "exc_str (BadRequestError msg) = msg"
  by (simp_all add: BadRequestError_def builtin_exception_def)

lemma isinstance_BadRequestError [simp]:
  "isinstance (BadRequestError msg) ''BadRequestError''"
  "isinstance (BadRequestError msg) ''Exception''"
  "\<not> isinstance (BadRequestError msg) ''ValidationError''"
  "\<not> isinstance (BadRequestError msg) ''TypeError''"
  "\<not> isinstance (BadRequestError msg) ''HTTPUnauthorized''"
  by (simp_all add: BadRequestError_def isinstance_builtin)

lemma isinstance_TypeError [simp]:
  "isinstance (TypeError msg) ''TypeError''"
  "isinstance (TypeError msg) ''Exception''"
  "\<not> isinstance (TypeError msg) ''ValidationError''"
  by (simp_all add: TypeError_def isinstance_builtin)

lemma exc_str_TypeError [simp]: "exc_str (TypeError msg) = msg"
  by (simp add: TypeError_def builtin_exception_def)

lemma ResponseFailure_json_failure_of:
  "ResponseFailure_json (failure_of e) = Inr (failure_body (exc_type e) (exc_str e))"
  by (simp add: ResponseFailure_json_def failure_of_def model_json_def BaseClass_def
      orjson_dumps_def orjson_lib_dumps_def ResponseFailure_dict_def ErrorResult_dict_def
      utc_item_def failure_body_def json_string_def escape_char_def)

subsection \<open>The error translation layer\<close>

text \<open>
  Once \<^verbatim>\<open>log_request\<close> has gone through, \<^verbatim>\<open>log_error\<close> goes through as well: both read the
  same body and validate the same field.
\<close>

lemma log_error_after_log_request:
  assumes "log_request ev request w = Inr w1"
  shows "\<exists>w3. log_error ev request response status e w2 = Inr w3"
  using assms
  by (auto simp: log_request_def log_error_def Let_def split: option.splits sum.splits)

lemma respond_failure_after_log_request:
  assumes "log_request ev request w = Inr w1"
  shows "fst (respond_failure ev request status e w2) =
         RaisedHTTP (http_exception status (failure_body (exc_type e) (exc_str e)))"
proof -
  obtain w3 where "log_error ev request (failure_of e) status e w2 = Inr w3"
    using log_error_after_log_request [OF assms] by blast
  then show ?thesis
    by (simp add: respond_failure_def Let_def ResponseFailure_json_failure_of)
qed

lemma try_handler_raises:
  assumes "log_request ev request w = Inr w1" and "handler request w1 = (Inl e, w2)"
  shows "try_handler ev request handler w = (Inl e, w2)"
  using assms by (simp add: try_handler_def)

lemma server_error_handler_raises:
  assumes "log_request ev request w = Inr w1"
      and "handler request w1 = (Inl e, w2)"
      and "isinstance e ''Exception''"
  shows "fst (server_error_handler ev request handler w) =
           RaisedHTTP (http_exception (mapped_status e) (failure_body (exc_type e) (exc_str e)))"
proof -
  have t: "try_handler ev request handler w = (Inl e, w2)"
    using assms(1,2) by (rule try_handler_raises)
  have r: "\<And>status. fst (respond_failure ev request status e w2) =
         RaisedHTTP (http_exception status (failure_body (exc_type e) (exc_str e)))"
    using assms(1) by (rule respond_failure_after_log_request)
  show ?thesis
    using assms(3) by (simp add: server_error_handler_def t r mapped_status_def)
qed

text \<open>
  C2. Whenever the handler (or the validation in front of it) raises an exception, the error
  boundary ends by raising one HTTP exception and lets nothing else out: its status is 401 for
  an authentication failure, 400 for a bad request, 200 for a business warning and 500 for
  any other exception, and its body is the JSON text of the failure envelope whose
  \<^verbatim>\<open>error_type\<close> is the name of the exception's class and whose \<^verbatim>\<open>error_message\<close> is its text.
\<close>

theorem server_error_handler_maps_failure:
  assumes "log_request ev request w = Inr w1"
      and "handler request w1 = (Inl e, w2)"
      and "isinstance e ''Exception''"
  shows "fst (server_error_handler ev request handler w) =
           RaisedHTTP \<lparr>resp_status = mapped_status e,
                       resp_text = Some (failure_body (exc_type e) (exc_str e)),
                       resp_content_type = ''application/json''\<rparr>
         \<and> ResponseFailure_json
             \<lparr>failure_success = False,
              failure_result = Some \<lparr>error_type = exc_type e, error_message = exc_str e\<rparr>\<rparr>
           = Inr (failure_body (exc_type e) (exc_str e))"
proof -
  have "fst (server_error_handler ev request handler w) =
          RaisedHTTP (http_exception (mapped_status e) (failure_body (exc_type e) (exc_str e)))"
    using assms by (rule server_error_handler_raises)
  moreover have "ResponseFailure_json (failure_of e) = Inr (failure_body (exc_type e) (exc_str e))"
    by (rule ResponseFailure_json_failure_of)
  ultimately show ?thesis
    by (simp add: http_exception_def failure_of_def)
qed

theorem server_error_handler_maps_failure_witness:
  \<open>(\<exists>w1. log_request sample_env sample_request (initial_world :: unit world) = Inr w1)
   \<and> isinstance project_not_found ''Exception''
   \<and> fst (server_error_handler sample_env sample_request raise_not_found
             (initial_world :: unit world))
     = RaisedHTTP
         \<lparr>resp_status = 200,
          resp_text = Some (''{"success":false,"result":{"error_type":"ProjectNotFound",''
                            @ ''"error_message":"No such project."}}''),
          resp_content_type = ''application/json''\<rparr>\<close>
proof -
  have "\<exists>w1. log_request sample_env sample_request (initial_world :: unit world) = Inr w1"
    by (simp add: log_request_def sample_env_def sample_request_def get_request_body_def
        JSONDecodeError_def isinstance_builtin)
  then obtain w1 :: "unit world" where h1: "log_request sample_env sample_request initial_world = Inr w1"
    by blast
  have h2: "raise_not_found sample_request w1 = (Inl project_not_found, w1)"
    by (simp add: raise_not_found_def)
  have h3: "isinstance project_not_found ''Exception''"
    by (simp add: project_not_found_def isinstance_builtin)
  show ?thesis
    using h1 h3 server_error_handler_maps_failure [where handler = raise_not_found, OF h1 h2 h3]
    by (simp add: mapped_status_def project_not_found_def isinstance_def failure_body_def
        json_string_def escape_char_def builtin_exception_def)
qed

subsection \<open>The validation pipeline\<close>

lemmas sample_defs =
  sample_request_def array_request_def ids_request_def malformed_request_def
  RequestProjectCreate_def RequestProjectRead_def RequestProjectDelete_def
  create_handler_def delete_handler_def create_or_read_handler_def read_or_delete_handler_def
  health_check_def returning_def uuid_list_def

lemma to_bad_request_BadRequestError [simp]:
  "to_bad_request (BadRequestError msg) = BadRequestError msg"
  by (simp add: to_bad_request_def)

lemma to_bad_request_Exception:
  assumes "isinstance (to_bad_request e) ''Exception''"
  shows "to_bad_request e = BadRequestError (exc_str (to_bad_request e))"
  using assms by (auto simp: to_bad_request_def split: if_splits)

lemma validation_phase_failure:
  "validation_phase a request w = (Inl e, w') \<Longrightarrow> \<exists>e0. e = to_bad_request e0"
  by (auto simp: validation_phase_def Let_def split: sum.splits prod.splits)

lemma mapped_status_BadRequestError [simp]: "mapped_status (BadRequestError msg) = 400"
  by (simp add: mapped_status_def)

text \<open>
  A request the validation rejects with an exception (an instance of \<^verbatim>\<open>Exception\<close>) is
  answered with status 400.
\<close>

lemma rejected_request_is_400:
  assumes "log_request ev request w = Inr w1"
      and "validate_request request h w1 = (Inl e, w2)"
      and "isinstance e ''Exception''"
  shows "e = BadRequestError (exc_str e)
         \<and> fst (api_v1 ev h request w) =
             RaisedHTTP (http_exception 400 (failure_body ''BadRequestError'' (exc_str e)))"
proof -
  obtain a where a: "handler_data_annotation h = Some a"
    and v: "validation_phase a request w1 = (Inl e, w2)"
    using assms(2) by (auto simp: validate_request_def split: option.splits)
  obtain e0 where "e = to_bad_request e0"
    using validation_phase_failure [OF v] by blast
  with assms(3) have e: "e = BadRequestError (exc_str e)"
    using to_bad_request_Exception by simp
  have p: "prepare_data request h w1 = (Inl e, w2)"
    using assms(2) by (simp add: prepare_data_def)
  have "fst (api_v1 ev h request w) =
          RaisedHTTP (http_exception (mapped_status e) (failure_body (exc_type e) (exc_str e)))"
    unfolding api_v1_def
    using assms(1) p assms(3) by (rule server_error_handler_raises)
  moreover have "mapped_status e = 400" "exc_type e = ''BadRequestError''"
    by (subst e, simp)+
  ultimately show ?thesis using e by simp
qed

lemma sample_log_request:
  "\<exists>w1. log_request sample_env (sample_request\<lparr>req_text := Inr t, req_json := j\<rparr>)
          (initial_world :: 'o world) = Inr w1"
  by (simp add: log_request_def sample_env_def sample_request_def get_request_body_def
        JSONDecodeError_def isinstance_builtin)

text \<open>
  C7. For a handler with a \<^verbatim>\<open>data\<close> annotation of any kind, every exception that leaves the
  validation phase is a \<^verbatim>\<open>BadRequestError\<close> carrying a message, and the client receives
  status 400: this covers an annotation that is no pydantic class and no union, and a JSON body
  that is no object.
\<close>

theorem validation_failure_is_bad_request:
  assumes "log_request ev request w = Inr w1"
      and "validate_request request h w1 = (Inl e, w2)"
      and "isinstance e ''Exception''"
  shows "e = BadRequestError (exc_str e)
         \<and> fst (api_v1 ev h request w) =
             RaisedHTTP (http_exception 400 (failure_body ''BadRequestError'' (exc_str e)))"
  using assms by (rule rejected_request_is_400)

theorem validation_failure_is_bad_request_witness:
  \<open>fst (validate_request array_request create_handler (initial_world :: request_data world))
     = Inl (BadRequestError
             (''type object '' @ [CHR 0x27] @ ''RequestProjectCreate'' @ [CHR 0x27]
              @ '' has no attribute '' @ [CHR 0x27] @ ''__args__'' @ [CHR 0x27]))
   \<and> fst (api_v1 sample_env create_handler array_request initial_world) =
     RaisedHTTP (http_exception 400
       (failure_body ''BadRequestError''
          (''type object '' @ [CHR 0x27] @ ''RequestProjectCreate'' @ [CHR 0x27]
           @ '' has no attribute '' @ [CHR 0x27] @ ''__args__'' @ [CHR 0x27])))\<close>
proof -
  let ?msg = "''type object '' @ [CHR 0x27] @ ''RequestProjectCreate'' @ [CHR 0x27]
              @ '' has no attribute '' @ [CHR 0x27] @ ''__args__'' @ [CHR 0x27]"
  obtain w1 :: "request_data world"
    where h1: "log_request sample_env array_request initial_world = Inr w1"
    unfolding array_request_def using sample_log_request by blast
  have v0: "\<And>w :: request_data world. validate_request array_request create_handler w =
             (Inl (BadRequestError ?msg), w\<lparr>w_json_reads := Suc (w_json_reads w)\<rparr>)"
    by (simp add: validate_request_def validation_phase_def validate_json_def try_single_def
        call_kwargs_def except_TypeError_def get_args_def to_bad_request_def AttributeError_def
        TypeError_def BadRequestError_def isinstance_def builtin_exception_def sample_defs)
  have h3: "isinstance (BadRequestError ?msg) ''Exception''" by simp
  show ?thesis
    using validation_failure_is_bad_request [OF h1 v0 h3] v0 [of initial_world]
    by simp
qed

lemma isinstance_JSONDecodeError [simp]:
  "isinstance (JSONDecodeError msg) ''Exception''"
  "\<not> isinstance (JSONDecodeError msg) ''ValidationError''"
  by (simp_all add: JSONDecodeError_def isinstance_builtin)

lemma exc_str_JSONDecodeError [simp]: "exc_str (JSONDecodeError msg) = msg"
  by (simp add: JSONDecodeError_def builtin_exception_def)






text \<open>
  C4. For a handler without a \<^verbatim>\<open>data\<close> annotation the validation does nothing: the request
  state is the one it started from (no call of \<^verbatim>\<open>request.json()\<close>, nothing stored under
  \<^verbatim>\<open>data\<close>), it cannot fail, and the handler is called on that state.
\<close>

theorem no_annotation_skips_validation:
  assumes "handler_data_annotation h = None"
  shows "validate_request request h w = (Inr (), w)
         \<and> prepare_data request h w =
             (case handler_call h request w of
                (Inl e, w2) \<Rightarrow> (Inl e, w2)
              | (Inr response, w2) \<Rightarrow> (wrap_response response, w2))"
  using assms by (simp add: validate_request_def prepare_data_def)

theorem no_annotation_skips_validation_witness:
  "prepare_data sample_request health_check initial_world =
     (Inr (ResponseValue \<lparr>resp_status = 200, resp_text = Some ''200'',
                          resp_content_type = ''text/plain''\<rparr>), initial_world)"
proof -
  have h: "handler_data_annotation health_check = None"
    by (simp add: health_check_def)
  show ?thesis
    using no_annotation_skips_validation [OF h, of sample_request initial_world]
    by (simp add: health_check_def returning_def wrap_response_def)
qed

subsection \<open>Assignments to the \<^verbatim>\<open>data\<close> key\<close>

lemma successes_simps [simp]:
  "successes [] = []"
  "successes (Inr obj # rs) = obj # successes rs"
  "successes (Inl e # rs) = successes rs"
  by (simp_all add: successes_def)

lemma union_loop_successes:
  "union_loop classes request_json m v w = (Inr (m', v'), w') \<Longrightarrow>
     m' = m + length (successes (map (\<lambda>cls. call_kwargs cls request_json) classes))
     \<and> w' = foldl (\<lambda>w obj. set_data obj w) w
               (successes (map (\<lambda>cls. call_kwargs cls request_json) classes))"
proof (induction classes arbitrary: m v w)
  case Nil
  then show ?case by simp
next
  case (Cons c cs)
  show ?case
  proof (cases "call_kwargs c request_json")
    case (Inl e)
    with Cons.prems have "isinstance e ''ValidationError''"
      by (simp split: if_splits)
    with Inl Cons.prems have "union_loop cs request_json m (exc_str e) w = (Inr (m', v'), w')"
      by simp
    from Cons.IH [OF this] Inl show ?thesis by simp
  next
    case (Inr obj)
    with Cons.prems have "union_loop cs request_json (m + 1) v (set_data obj w) = (Inr (m', v'), w')"
      by simp
    from Cons.IH [OF this] Inr show ?thesis by simp
  qed
qed

lemma validate_json_stores:
  assumes "validate_json annotation request_json w = (Inr u, w')"
  shows "\<exists>obj. successes (map (\<lambda>cls. call_kwargs cls request_json) (annotation_classes annotation))
                 = [obj]
               \<and> w' = set_data obj w"
proof (cases annotation)
  case (Model cls)
  with assms show ?thesis
    by (auto simp: validate_json_def try_single_def except_TypeError_def get_args_def
        annotation_classes_def split: sum.splits if_splits)
next
  case PlainClass
  with assms show ?thesis
    by (simp add: validate_json_def try_single_def)
next
  case (Generic classes)
  with assms obtain m v where l: "union_loop classes request_json 0 [] w = (Inr (m, v), w')"
    and m: "m = 1"
    by (auto simp: validate_json_def try_single_def except_TypeError_def get_args_def
        split: sum.splits prod.splits if_splits)
  let ?s = "successes (map (\<lambda>cls. call_kwargs cls request_json) classes)"
  from union_loop_successes [OF l] m
  have n: "length ?s = 1" and w: "w' = foldl (\<lambda>w obj. set_data obj w) w ?s"
    by simp_all
  from n obtain obj where s: "?s = [obj]"
    by (cases ?s) simp_all
  with w Generic show ?thesis
    by (simp add: annotation_classes_def)
next
  case (Opaque tname)
  with assms show ?thesis
    by (simp add: validate_json_def try_single_def except_TypeError_def get_args_def)
qed

lemma elk_emit_data [simp]:
  "w_data (elk_emit logger level msg extra w) = w_data w"
  "w_data_sets (elk_emit logger level msg extra w) = w_data_sets w"
  by (simp_all add: elk_emit_def)

lemma log_response_data:
  "log_response ev request response w = Inr w' \<Longrightarrow>
     w_data w' = w_data w \<and> w_data_sets w' = w_data_sets w"
  by (auto simp: log_response_def split: option.splits sum.splits)

lemma log_error_data:
  "log_error ev request response status e w = Inr w' \<Longrightarrow>
     w_data w' = w_data w \<and> w_data_sets w' = w_data_sets w"
  by (auto simp: log_error_def Let_def split: option.splits sum.splits)

lemma respond_failure_data:
  "w_data (snd (respond_failure ev request status e w)) = w_data w
   \<and> w_data_sets (snd (respond_failure ev request status e w)) = w_data_sets w"
  by (auto simp: respond_failure_def Let_def dest: log_error_data split: sum.splits)

lemma server_error_handler_data:
  assumes "log_request ev request w0 = Inr w"
      and "handler request w = (r, w2)"
  shows "w_data (snd (server_error_handler ev request handler w0)) = w_data w2
         \<and> w_data_sets (snd (server_error_handler ev request handler w0)) = w_data_sets w2"
proof (cases r)
  case (Inl e)
  with assms have "try_handler ev request handler w0 = (Inl e, w2)"
    by (simp add: try_handler_def)
  then show ?thesis
    by (simp add: server_error_handler_def respond_failure_data)
next
  case (Inr response)
  show ?thesis
  proof (cases "log_response ev request response w2")
    case (Inl e)
    with assms Inr have "try_handler ev request handler w0 = (Inl e, w2)"
      by (simp add: try_handler_def)
    then show ?thesis
      by (simp add: server_error_handler_def respond_failure_data)
  next
    case (Inr w3)
    with assms \<open>r = Inr response\<close>
    have "try_handler ev request handler w0 = (Inr response, w3)"
      by (simp add: try_handler_def)
    with log_response_data [OF Inr] show ?thesis
      by (simp add: server_error_handler_def)
  qed
qed

text \<open>
  C6, as amended. Whenever the validation lets a request through to the handler:
  \<^item> without a \<^verbatim>\<open>data\<close> annotation the request state is untouched;
  \<^item> with one, the body has been read once, exactly one class of the annotation accepts it,
    and the \<^verbatim>\<open>data\<close> key has been assigned exactly once, with the object that class built;
  \<^item> the pipeline ends in the state the handler left, and the error boundary around it
    leaves the \<^verbatim>\<open>data\<close> key and the number of its assignments as the handler left them.
\<close>

theorem data_assigned_once_before_handler:
  assumes "validate_request request h w = (Inr u, w1)"
      and "handler_call h request w1 = (r, w2)"
  shows "(handler_data_annotation h = None \<longrightarrow> w1 = w)
         \<and> (\<forall>a. handler_data_annotation h = Some a \<longrightarrow>
              (\<exists>request_json obj.
                  req_json request = Inr request_json
                \<and> successes (map (\<lambda>cls. call_kwargs cls request_json) (annotation_classes a))
                    = [obj]
                \<and> w1 = w\<lparr>w_data := Some obj, w_data_sets := Suc (w_data_sets w),
                          w_json_reads := Suc (w_json_reads w)\<rparr>))
         \<and> snd (prepare_data request h w) = w2
         \<and> (\<forall>ev w0. log_request ev request w0 = Inr w \<longrightarrow>
              w_data (snd (api_v1 ev h request w0)) = w_data w2
            \<and> w_data_sets (snd (api_v1 ev h request w0)) = w_data_sets w2)"
proof -
  have a: "handler_data_annotation h = None \<longrightarrow> w1 = w"
    using assms(1) by (auto simp: validate_request_def)
  have b: "\<forall>a. handler_data_annotation h = Some a \<longrightarrow>
              (\<exists>request_json obj.
                  req_json request = Inr request_json
                \<and> successes (map (\<lambda>cls. call_kwargs cls request_json) (annotation_classes a))
                    = [obj]
                \<and> w1 = w\<lparr>w_data := Some obj, w_data_sets := Suc (w_data_sets w),
                          w_json_reads := Suc (w_json_reads w)\<rparr>)"
  proof (intro allI impI)
    fix a assume a: "handler_data_annotation h = Some a"
    with assms(1) obtain rj where rj: "req_json request = Inr rj"
      and v: "validate_json a rj (w\<lparr>w_json_reads := Suc (w_json_reads w)\<rparr>) = (Inr u, w1)"
      by (auto simp: validate_request_def validation_phase_def Let_def
          split: sum.splits prod.splits)
    from validate_json_stores [OF v] obtain obj
      where "successes (map (\<lambda>cls. call_kwargs cls rj) (annotation_classes a)) = [obj]"
        and "w1 = set_data obj (w\<lparr>w_json_reads := Suc (w_json_reads w)\<rparr>)"
      by blast
    with rj show "\<exists>request_json obj.
                  req_json request = Inr request_json
                \<and> successes (map (\<lambda>cls. call_kwargs cls request_json) (annotation_classes a))
                    = [obj]
                \<and> w1 = w\<lparr>w_data := Some obj, w_data_sets := Suc (w_data_sets w),
                          w_json_reads := Suc (w_json_reads w)\<rparr>"
      by (simp add: set_data_def)
  qed
  have c: "snd (prepare_data request h w) = w2"
    using assms by (cases r) (simp_all add: prepare_data_def)
  have d: "\<forall>ev w0. log_request ev request w0 = Inr w \<longrightarrow>
              w_data (snd (api_v1 ev h request w0)) = w_data w2
            \<and> w_data_sets (snd (api_v1 ev h request w0)) = w_data_sets w2"
  proof (intro allI impI)
    fix ev w0 assume l: "log_request ev request w0 = Inr w"
    obtain r' where p: "prepare_data request h w = (r', w2)"
      using c by (cases "prepare_data request h w") simp
    show "w_data (snd (api_v1 ev h request w0)) = w_data w2
            \<and> w_data_sets (snd (api_v1 ev h request w0)) = w_data_sets w2"
      unfolding api_v1_def using l p by (rule server_error_handler_data)
  qed
  from a b c d show ?thesis by blast
qed

theorem data_assigned_once_before_handler_witness:
  "validate_request sample_request create_or_read_handler initial_world =
     (Inr (), \<lparr>w_data = Some (ProjectCreateData ''Alpha''), w_data_sets = 1, w_json_reads = 1,
               w_sink = []\<rparr>)
   \<and> successes (map (\<lambda>cls. call_kwargs cls
                              (PyDict [(''params'', PyDict [(''name'', PyStr ''Alpha'')])]))
                   (annotation_classes (Generic [RequestProjectCreate, RequestProjectRead])))
       = [ProjectCreateData ''Alpha'']
   \<and> snd (prepare_data sample_request create_or_read_handler initial_world) =
       \<lparr>w_data = Some (ProjectCreateData ''Alpha''), w_data_sets = 1, w_json_reads = 1,
        w_sink = []\<rparr>
   \<and> w_data_sets (snd (api_v1 (sample_env\<lparr>env_logger := None\<rparr>) create_or_read_handler
                          sample_request initial_world)) = 1"
proof -
  let ?w1 = "\<lparr>w_data = Some (ProjectCreateData ''Alpha''), w_data_sets = 1, w_json_reads = 1,
              w_sink = []\<rparr> :: request_data world"
  have v: "validate_request sample_request create_or_read_handler initial_world = (Inr (), ?w1)"
    by (simp add: validate_request_def validation_phase_def validate_json_def try_single_def
        except_TypeError_def get_args_def call_kwargs_def set_data_def initial_world_def
        sample_defs uuid_list_def ValidationError_def TypeError_def builtin_exception_def
        isinstance_def)
  have c: "handler_call create_or_read_handler sample_request ?w1 = (Inr (OtherValue PyNone), ?w1)"
    by (simp add: create_or_read_handler_def returning_def)
  have a: "handler_data_annotation create_or_read_handler
             = Some (Generic [RequestProjectCreate, RequestProjectRead])"
    by (simp add: create_or_read_handler_def)
  have r: "req_json sample_request
             = Inr (PyDict [(''params'', PyDict [(''name'', PyStr ''Alpha'')])])"
    by (simp add: sample_request_def)
  have l: "log_request (sample_env\<lparr>env_logger := None\<rparr>) sample_request
             (initial_world :: request_data world) = Inr initial_world"
    by (simp add: log_request_def)
  have s: "successes (map (\<lambda>cls. call_kwargs cls
                              (PyDict [(''params'', PyDict [(''name'', PyStr ''Alpha'')])]))
                   (annotation_classes (Generic [RequestProjectCreate, RequestProjectRead])))
       = [ProjectCreateData ''Alpha'']"
    by (simp add: annotation_classes_def call_kwargs_def sample_defs)
  show ?thesis
    using data_assigned_once_before_handler [OF v c] a r l v s by auto
qed


text \<open>
  The claim as it stands fails: with a union of two classes that both accept the body, the key
  is assigned twice before the request is rejected as ambiguous.
\<close>

theorem data_assigned_twice_counterexample:
  "validation_phase (Generic [RequestProjectRead, RequestProjectDelete]) ids_request initial_world
     = (Inl (BadRequestError ''Request matches several of the classes in the union.''),
        \<lparr>w_data = Some (ProjectDeleteData []), w_data_sets = 2, w_json_reads = 1, w_sink = []\<rparr>)"
  by (simp add: validation_phase_def validate_json_def try_single_def except_TypeError_def
      get_args_def call_kwargs_def set_data_def initial_world_def to_bad_request_def sample_defs
      TypeError_def isinstance_builtin)

subsection \<open>Unions of shapes\<close>

lemma validation_errors_simps [simp]:
  "validation_errors [] = []"
  "validation_errors (Inr obj # rs) = validation_errors rs"
  "validation_errors (Inl e # rs) =
     (if isinstance e ''ValidationError'' then exc_str e # validation_errors rs
      else validation_errors rs)"
  by (simp_all add: validation_errors_def)

text \<open>
  On a JSON object and classes that validate or reject it, the loop runs to its end: it counts
  the successes, keeps the text of the last validation error, and leaves the last object
  built under \<^verbatim>\<open>data\<close>.
\<close>

lemma union_loop_dict:
  assumes "list_all (validates_or_rejects kwargs) classes"
  shows "union_loop classes (PyDict kwargs) m v w =
           (let attempts = map (\<lambda>cls. call_kwargs cls (PyDict kwargs)) classes in
            (Inr (m + length (successes attempts),
                  case validation_errors attempts of [] \<Rightarrow> v | errs \<Rightarrow> last errs),
             case successes attempts of
               [] \<Rightarrow> w
             | objs \<Rightarrow> w\<lparr>w_data := Some (last objs),
                        w_data_sets := w_data_sets w + length objs\<rparr>))"
  using assms
proof (induction classes arbitrary: m v w)
  case Nil
  then show ?case by simp
next
  case (Cons c cs)
  show ?case
  proof (cases "cls_init c kwargs")
    case (Inl e)
    with Cons.prems have "isinstance e ''ValidationError''"
      by (simp add: validates_or_rejects_def)
    with Inl Cons show ?thesis
      by (simp add: call_kwargs_def Let_def split: list.splits)
  next
    case (Inr obj)
    with Cons show ?thesis
      by (simp add: call_kwargs_def Let_def set_data_def split: list.splits)
  qed
qed

lemma validate_json_Generic:
  "validate_json (Generic classes) request_json w =
     (case union_loop classes request_json 0 [] w of
        (Inl e, w') \<Rightarrow> (Inl e, w')
      | (Inr (matched_classes_number, validation_error), w') \<Rightarrow>
          if matched_classes_number = 0 then (Inl (BadRequestError validation_error), w')
          else if matched_classes_number = 1 then (Inr (), w')
          else (Inl (BadRequestError ''Request matches several of the classes in the union.''), w'))"
  by (simp add: validate_json_def try_single_def except_TypeError_def get_args_def)

lemma validation_phase_union_dict:
  assumes "req_json request = Inr (PyDict kwargs)"
      and "list_all (validates_or_rejects kwargs) classes"
  shows "case union_claim classes (PyDict kwargs) of
           Inl e \<Rightarrow> fst (validation_phase (Generic classes) request w) = Inl e
         | Inr obj \<Rightarrow> \<exists>w1. validation_phase (Generic classes) request w = (Inr (), w1)
                          \<and> w_data w1 = Some obj"
proof -
  let ?attempts = "map (\<lambda>cls. call_kwargs cls (PyDict kwargs)) classes"
  show ?thesis
  proof (cases "successes ?attempts")
    case Nil
    then show ?thesis
      using assms
      by (simp add: union_claim_def validation_phase_def Let_def validate_json_Generic
          union_loop_dict)
  next
    case (Cons obj objs)
    then show ?thesis
      using assms
      by (cases objs)
         (simp_all add: union_claim_def validation_phase_def Let_def validate_json_Generic
          union_loop_dict)
  qed
qed

text \<open>
  C1, as amended. For a handler whose \<^verbatim>\<open>data\<close> annotation is a union of pydantic shapes and
  a body that is a JSON object, the pipeline does what the specification says of a union:
  without a validating alternative the request fails as a bad request with the last validation
  error, with exactly one the handler is called with that object under \<^verbatim>\<open>data\<close>, with
  several the request fails as a bad request with the ambiguity message.
\<close>

theorem union_validation_matches_claim:
  assumes "handler_data_annotation h = Some (Generic classes)"
      and "req_json request = Inr (PyDict kwargs)"
      and "list_all (validates_or_rejects kwargs) classes"
  shows "case union_claim classes (PyDict kwargs) of
           Inl e \<Rightarrow> fst (prepare_data request h w) = Inl e
         | Inr obj \<Rightarrow>
             \<exists>w1. validate_request request h w = (Inr (), w1) \<and> w_data w1 = Some obj
                \<and> prepare_data request h w =
                    (case handler_call h request w1 of
                       (Inl e, w2) \<Rightarrow> (Inl e, w2)
                     | (Inr response, w2) \<Rightarrow> (wrap_response response, w2))"
proof (cases "union_claim classes (PyDict kwargs)")
  case (Inl e)
  with validation_phase_union_dict [OF assms(2,3), of w]
  have "fst (validation_phase (Generic classes) request w) = Inl e" by simp
  then have "fst (prepare_data request h w) = Inl e"
    using assms(1)
    by (cases "validation_phase (Generic classes) request w")
       (simp add: prepare_data_def validate_request_def)
  with Inl show ?thesis by simp
next
  case (Inr obj)
  with validation_phase_union_dict [OF assms(2,3), of w]
  obtain w1 where "validation_phase (Generic classes) request w = (Inr (), w1)"
    and "w_data w1 = Some obj" by auto
  with Inr assms(1) show ?thesis
    by (simp add: prepare_data_def validate_request_def)
qed

theorem union_validation_matches_claim_witness:
  "union_claim [RequestProjectCreate, RequestProjectRead]
     (PyDict [(''params'', PyDict [(''name'', PyStr ''Alpha'')])]) = Inr (ProjectCreateData ''Alpha'')
   \<and> (\<exists>w1. validate_request sample_request create_or_read_handler initial_world = (Inr (), w1)
          \<and> w_data w1 = Some (ProjectCreateData ''Alpha'')
          \<and> prepare_data sample_request create_or_read_handler initial_world =
               (Inr (OtherValue PyNone), w1))"
proof -
  let ?kw = "[(''params'', PyDict [(''name'', PyStr ''Alpha'')])]"
  have h1: "handler_data_annotation create_or_read_handler
              = Some (Generic [RequestProjectCreate, RequestProjectRead])"
    by (simp add: create_or_read_handler_def)
  have h2: "req_json sample_request = Inr (PyDict ?kw)"
    by (simp add: sample_request_def)
  have h3: "list_all (validates_or_rejects ?kw) [RequestProjectCreate, RequestProjectRead]"
    by (simp add: validates_or_rejects_def sample_defs ValidationError_def isinstance_def)
  have u: "union_claim [RequestProjectCreate, RequestProjectRead] (PyDict ?kw)
             = Inr (ProjectCreateData ''Alpha'')"
    by (simp add: union_claim_def call_kwargs_def sample_defs ValidationError_def isinstance_def)
  show ?thesis
    using union_validation_matches_claim [OF h1 h2 h3, of initial_world] u
    by (simp add: create_or_read_handler_def returning_def wrap_response_def)
qed

text \<open>
  The claim as it stands fails for a JSON body that is no object: the first attempt raises
  \<^verbatim>\<open>TypeError\<close>, the loop is left, and the message of the bad request is that error's text,
  while no validation error has been met.
\<close>

theorem union_non_object_body_counterexample:
  "fst (validation_phase (Generic [RequestProjectCreate, RequestProjectRead]) array_request
          initial_world)
     = Inl (BadRequestError ''RequestProjectCreate() argument after ** must be a mapping, not list'')
   \<and> union_claim [RequestProjectCreate, RequestProjectRead] (PyList []) = Inl (BadRequestError [])"
  by (simp add: validation_phase_def validate_json_Generic call_kwargs_def union_claim_def
      to_bad_request_def sample_defs)

subsection \<open>The logging adapter\<close>

lemma log_request_emits:
  assumes "log_request ev request w = Inr w'"
  shows "w' = w \<and> (env_logger ev = None \<or> env_logger ev = Some \<lparr>elk_logger = False\<rparr>)
         \<or> (\<exists>body. w' = w\<lparr>w_sink := w_sink w @
                 [\<lparr>rec_level = INFO, rec_msg = ''Request #'' @ env_req_id ev,
                   rec_extra = RequestExtra
                     \<lparr>log_type = ''Request'', log_request_uuid = env_req_id ev,
                      log_url = req_url request, log_method = req_method request,
                      log_body = body,
                      log_headers = dict_pop ''Authorization'' (req_headers request),
                      log_cookies = req_cookies request\<rparr>\<rparr>]\<rparr>)"
proof (cases "env_logger ev")
  case None
  with assms show ?thesis by (simp add: log_request_def)
next
  case (Some lg)
  show ?thesis
  proof (cases "elk_logger lg")
    case False
    then have "lg = \<lparr>elk_logger = False\<rparr>" by (cases lg) simp
    with assms Some show ?thesis
      by (auto simp: log_request_def Let_def elk_emit_def split: sum.splits)
  next
    case True
    with assms Some show ?thesis
      by (auto simp: log_request_def Let_def elk_emit_def split: sum.splits)
  qed
qed

lemma log_request_headers_only:
  assumes "dict_pop ''Authorization'' hs = dict_pop ''Authorization'' (req_headers request)"
  shows "log_request ev (request\<lparr>req_headers := hs\<rparr>) w = log_request ev request w"
  using assms
  by (simp add: log_request_def get_request_body_def Let_def split: option.splits sum.splits)

text \<open>
  C8. The request record that \<^verbatim>\<open>log_request\<close> hands to the logger carries the request's
  headers without the \<^verbatim>\<open>Authorization\<close> entry, every other header in place, and the cookies
  unchanged; and a request that differs from this one only in the \<^verbatim>\<open>Authorization\<close> header
  (its value or its presence) is logged in exactly the same way.
\<close>

theorem log_request_redacts_authorization:
  assumes "log_request ev request w = Inr w'"
  shows "(w' = w
          \<or> (\<exists>body. w' = w\<lparr>w_sink := w_sink w @
                 [\<lparr>rec_level = INFO, rec_msg = ''Request #'' @ env_req_id ev,
                   rec_extra = RequestExtra
                     \<lparr>log_type = ''Request'', log_request_uuid = env_req_id ev,
                      log_url = req_url request, log_method = req_method request,
                      log_body = body,
                      log_headers = [kv \<leftarrow> req_headers request. fst kv \<noteq> ''Authorization''],
                      log_cookies = req_cookies request\<rparr>\<rparr>]\<rparr>))
         \<and> (\<forall>hs. [kv \<leftarrow> hs. fst kv \<noteq> ''Authorization'']
                  = [kv \<leftarrow> req_headers request. fst kv \<noteq> ''Authorization'']
                \<longrightarrow> log_request ev (request\<lparr>req_headers := hs\<rparr>) w = Inr w')"
proof -
  have "w' = w
          \<or> (\<exists>body. w' = w\<lparr>w_sink := w_sink w @
                 [\<lparr>rec_level = INFO, rec_msg = ''Request #'' @ env_req_id ev,
                   rec_extra = RequestExtra
                     \<lparr>log_type = ''Request'', log_request_uuid = env_req_id ev,
                      log_url = req_url request, log_method = req_method request,
                      log_body = body,
                      log_headers = [kv \<leftarrow> req_headers request. fst kv \<noteq> ''Authorization''],
                      log_cookies = req_cookies request\<rparr>\<rparr>]\<rparr>)"
    using log_request_emits [OF assms] by (auto simp: dict_pop_def)
  moreover have "\<forall>hs. [kv \<leftarrow> hs. fst kv \<noteq> ''Authorization'']
                  = [kv \<leftarrow> req_headers request. fst kv \<noteq> ''Authorization'']
                \<longrightarrow> log_request ev (request\<lparr>req_headers := hs\<rparr>) w = Inr w'"
    using log_request_headers_only [of _ request ev w] assms by (simp add: dict_pop_def)
  ultimately show ?thesis by blast
qed

theorem log_request_redacts_authorization_witness:
  "log_request sample_env sample_request initial_world = Inr sample_logged
   \<and> log_request sample_env (sample_request\<lparr>req_headers := [(''Accept'', ''*/*'')]\<rparr>) initial_world
       = Inr sample_logged
   \<and> log_request sample_env
       (sample_request\<lparr>req_headers := [(''Accept'', ''*/*''), (''Authorization'', ''Basic b3RoZXI='')]\<rparr>)
       initial_world = Inr sample_logged"
proof -
  have h: "log_request sample_env sample_request initial_world = Inr sample_logged"
    by (simp add: log_request_def sample_env_def sample_request_def get_request_body_def
        JSONDecodeError_def isinstance_builtin dict_pop_def elk_emit_def initial_world_def
        sample_logged_def)
  have r: "req_headers sample_request = [(''Authorization'', ''Bearer s3cret''), (''Accept'', ''*/*'')]"
    by (simp add: sample_request_def)
  from log_request_redacts_authorization [OF h]
  have a: "\<forall>hs. [kv \<leftarrow> hs. fst kv \<noteq> ''Authorization'']
                  = [kv \<leftarrow> req_headers sample_request. fst kv \<noteq> ''Authorization'']
                \<longrightarrow> log_request sample_env (sample_request\<lparr>req_headers := hs\<rparr>) initial_world
                    = Inr sample_logged"
    by blast
  have "log_request sample_env (sample_request\<lparr>req_headers := [(''Accept'', ''*/*'')]\<rparr>)
          initial_world = Inr sample_logged"
    using a [rule_format, of "[(''Accept'', ''*/*'')]"] by (simp add: r)
  moreover have "log_request sample_env
       (sample_request\<lparr>req_headers := [(''Accept'', ''*/*''), (''Authorization'', ''Basic b3RoZXI='')]\<rparr>)
       initial_world = Inr sample_logged"
    using a [rule_format, of "[(''Accept'', ''*/*''), (''Authorization'', ''Basic b3RoZXI='')]"]
    by (simp add: r)
  ultimately show ?thesis using h by simp
qed

subsection \<open>Serialization of datetimes\<close>

lemma render_sample_created:
  "render_datetime service_options (sample_created\<lparr>dt_microsecond := us, dt_tzinfo := tz\<rparr>)
     = ''2021-03-04T05:06:07'' @ (case tz of None \<Rightarrow> [] | Some m \<Rightarrow> if m = 0 then ''Z'' else render_offset service_options (Some m))"
  by (simp add: render_datetime_def sample_created_def service_options_def zero_pad_def
      nat_to_str.simps render_offset_def char_of_def bit_0 split: option.splits)

lemma render_datetime_omits_microseconds:
  "render_datetime service_options (d\<lparr>dt_microsecond := us\<rparr>) = render_datetime service_options d"
  by (simp add: render_datetime_def service_options_def)

lemma render_sample_created_naive:
  "render_datetime service_options sample_created = ''2021-03-04T05:06:07''"
  using render_sample_created [where us = 123456 and tz = None] by (simp add: sample_created_def)

lemma render_sample_created_utc:
  "render_datetime service_options (replace_tzinfo_utc sample_created) = ''2021-03-04T05:06:07Z''"
  using render_sample_created [where us = 123456 and tz = "Some 0"]
  by (simp add: sample_created_def replace_tzinfo_utc_def)

lemmas dumps_defs =
  ResponseSuccess_json_def model_json_def BaseClass_def orjson_dumps_def orjson_lib_dumps_def
  ResponseSuccess_dict_def utc_item_def utc_list_element_def utc_inner_item_def

text \<open>
  C10, at the failing input. \<^verbatim>\<open>orjson_dumps\<close> gives the UTC zone to a datetime at the top
  level and to one inside a dictionary inside a list, but not to one inside a dictionary that
  is itself a value: the \<^verbatim>\<open>created\<close> field of a \<^verbatim>\<open>ResponseProject\<close> is written without
  microseconds and without any zone designator, while the same project inside a
  \<^verbatim>\<open>ResponseProjectSeveral\<close> is written with \<^verbatim>\<open>Z\<close>.
\<close>

theorem nested_datetime_rendered_without_zone:
  \<open>ResponseSuccess_json (ResponseProject (sample_project sample_created)) =
     Inr (''{"success":true,"result":{"id":"3f2b8c1e-6d0a-4c55-9b7e-0a1d2e3f4a5b",''
          @ ''"name":"Alpha","created":"2021-03-04T05:06:07","updated":null}}'')
   \<and> ResponseSuccess_json (ResponseProjectSeveral [sample_project sample_created]) =
     Inr (''{"success":true,"result":[{"id":"3f2b8c1e-6d0a-4c55-9b7e-0a1d2e3f4a5b",''
          @ ''"name":"Alpha","created":"2021-03-04T05:06:07Z","updated":null}]}'')\<close>
  by (simp add: dumps_defs ResponseProject_def ResponseProjectSeveral_def sample_project_def
      render_sample_created_naive render_sample_created_utc json_string_def escape_char_def)

text \<open>
  The claim C9 as it stands fails: two success envelopes that differ in the microseconds of a
  datetime have the same JSON text, so no parser gives both of them back.
\<close>

theorem envelope_round_trip_counterexample:
  "ResponseSuccess_json (ResponseProjectSeveral [sample_project sample_created]) =
     ResponseSuccess_json
       (ResponseProjectSeveral [sample_project (sample_created\<lparr>dt_microsecond := 0\<rparr>)])
   \<and> ResponseProjectSeveral [sample_project sample_created] \<noteq>
     ResponseProjectSeveral [sample_project (sample_created\<lparr>dt_microsecond := 0\<rparr>)]"
proof -
  have "replace_tzinfo_utc (sample_created\<lparr>dt_microsecond := 0\<rparr>)
          = (replace_tzinfo_utc sample_created)\<lparr>dt_microsecond := 0\<rparr>"
    by (simp add: replace_tzinfo_utc_def)
  then have "ResponseSuccess_json (ResponseProjectSeveral [sample_project sample_created]) =
     ResponseSuccess_json
       (ResponseProjectSeveral [sample_project (sample_created\<lparr>dt_microsecond := 0\<rparr>)])"
    by (simp add: dumps_defs ResponseProjectSeveral_def sample_project_def
        render_datetime_omits_microseconds)
  moreover have "ResponseProjectSeveral [sample_project sample_created] \<noteq>
     ResponseProjectSeveral [sample_project (sample_created\<lparr>dt_microsecond := 0\<rparr>)]"
    by (simp add: ResponseProjectSeveral_def sample_project_def sample_created_def)
  ultimately show ?thesis by simp
qed

subsection \<open>The decoder inverts the encoder\<close>

lemma is_digit_char_of: "k < 10 \<Longrightarrow> is_digit (char_of (48 + k :: nat))"
  by (simp add: is_digit_def)

lemma nat_to_str_digits: "c \<in> set (nat_to_str n) \<Longrightarrow> is_digit c"
proof (induction n arbitrary: c rule: nat_to_str.induct)
  case (1 n)
  show ?case
  proof (cases "n < 10")
    case True
    with "1.prems" show ?thesis
      by (simp add: nat_to_str.simps [of n] is_digit_char_of)
  next
    case False
    with "1.prems" have "c \<in> set (nat_to_str (n div 10)) \<or> c = char_of (48 + n mod 10)"
      by (auto simp: nat_to_str.simps [of n])
    then show ?thesis
    proof
      assume "c \<in> set (nat_to_str (n div 10))"
      with False "1.IH" show ?thesis by simp
    next
      assume "c = char_of (48 + n mod 10)"
      then show ?thesis by (simp add: is_digit_char_of)
    qed
  qed
qed

lemma nat_to_str_nonempty [simp]: "nat_to_str n \<noteq> []"
  by (subst nat_to_str.simps) simp

lemma str_to_nat_snoc: "str_to_nat (ds @ [c]) = 10 * str_to_nat ds + (of_char c - 48)"
  by (simp add: str_to_nat_def)

lemma str_to_nat_nat_to_str: "str_to_nat (nat_to_str n) = n"
proof (induction n rule: nat_to_str.induct)
  case (1 n)
  show ?case
  proof (cases "n < 10")
    case True
    then show ?thesis
      by (simp add: nat_to_str.simps [of n] str_to_nat_def)
  next
    case False
    with "1.IH" have "str_to_nat (nat_to_str (n div 10)) = n div 10" by simp
    with False show ?thesis
      by (simp add: nat_to_str.simps [of n] str_to_nat_snoc)
  qed
qed

lemma hd_nat_to_str_zero: "hd (nat_to_str n) = CHR ''0'' \<Longrightarrow> n = 0"
proof (induction n rule: nat_to_str.induct)
  case (1 n)
  show ?case
  proof (cases "n < 10")
    case True
    with "1.prems" have "char_of (48 + n) = (char_of (48 :: nat) :: char)"
      by (simp add: nat_to_str.simps [of n] char_of_def bit_0)
    with True show ?thesis by simp
  next
    case False
    with "1.prems" have "hd (nat_to_str (n div 10)) = CHR ''0''"
      by (simp add: nat_to_str.simps [of n])
    with False "1.IH" have "n div 10 = 0" by simp
    with False show ?thesis by simp
  qed
qed

lemma length_nat_to_str_zero: "length (nat_to_str 0) = 1"
  by (simp add: nat_to_str.simps)

lemma takeWhile_digits:
  assumes "rest = [] \<or> \<not> is_digit (hd rest)"
  shows "takeWhile is_digit (nat_to_str n @ rest) = nat_to_str n"
    and "dropWhile is_digit (nat_to_str n @ rest) = rest"
proof -
  have a: "\<forall>c \<in> set (nat_to_str n). is_digit c"
    using nat_to_str_digits by blast
  from assms have t: "takeWhile is_digit rest = []" and d: "dropWhile is_digit rest = rest"
    by (cases rest; simp)+
  from a t show "takeWhile is_digit (nat_to_str n @ rest) = nat_to_str n"
    by (simp add: takeWhile_append2)
  from a d show "dropWhile is_digit (nat_to_str n @ rest) = rest"
    by (simp add: dropWhile_append2)
qed

lemma hd_nat_to_str_digit: "is_digit (hd (nat_to_str n))"
  by (rule nat_to_str_digits [of _ n]) simp

lemma not_digit_minus: "\<not> is_digit (CHR ''-'')"
  by (simp add: is_digit_def)

lemma parse_number_int_to_str:
  assumes "- (2 ^ 63) \<le> i" and "i < 2 ^ 64" and "number_end rest"
  shows "parse_number (int_to_str i @ rest) = Some (PyInt i, rest)"
proof -
  from assms(3) have r: "rest = [] \<or> \<not> is_digit (hd rest)"
    by (auto simp: number_end_def)
  show ?thesis
  proof (cases "i < 0")
    case True
    let ?n = "nat (- i)"
    have s: "int_to_str i @ rest = CHR ''-'' # nat_to_str ?n @ rest"
      using True by (simp add: int_to_str_def)
    have z: "hd (nat_to_str ?n) = CHR ''0'' \<Longrightarrow> False"
      using hd_nat_to_str_zero [of ?n] True by simp
    show ?thesis
      unfolding s parse_number_def
      using True assms z
      by (auto simp: Let_def takeWhile_digits [OF r] str_to_nat_nat_to_str number_end_def)
  next
    case False
    let ?n = "nat i"
    have s: "int_to_str i @ rest = nat_to_str ?n @ rest"
      using False by (simp add: int_to_str_def)
    have m: "hd (nat_to_str ?n @ rest) \<noteq> CHR ''-''"
      using hd_nat_to_str_digit [of ?n] not_digit_minus by (auto simp: hd_append)
    have z: "hd (nat_to_str ?n) = CHR ''0'' \<Longrightarrow> length (nat_to_str ?n) = 1"
      using hd_nat_to_str_zero [of ?n] length_nat_to_str_zero by simp
    show ?thesis
      unfolding s parse_number_def
      using False assms m z
      by (auto simp: Let_def takeWhile_digits [OF r] str_to_nat_nat_to_str number_end_def)
  qed
qed

lemma hex_value_hex_digit: "k < 16 \<Longrightarrow> hex_value (hex_digit k) = Some k"
  by (auto simp: hex_value_def hex_digit_def Let_def)

lemma hex_value_zero: "hex_value (CHR ''0'') = Some 0"
  by (simp add: hex_value_def)

lemma parse_chars_control:
  assumes "(of_char c :: nat) < 32"
  shows "parse_chars ([CHR 0x5C, CHR ''u'', CHR ''0'', CHR ''0'',
                        hex_digit (of_char c div 16), hex_digit (of_char c mod 16)] @ X)
         = map_option (\<lambda>(r, t). (c # r, t)) (parse_chars X)"
proof -
  let ?n = "of_char c :: nat"
  have h: "hex_value (hex_digit (?n div 16)) = Some (?n div 16)"
          "hex_value (hex_digit (?n mod 16)) = Some (?n mod 16)"
    using assms by (simp_all add: hex_value_hex_digit)
  have v: "((0 * 16 + 0) * 16 + ?n div 16) * 16 + ?n mod 16 = ?n" by simp
  have l: "?n < 128" using assms by simp
  show ?thesis
    using l by (simp add: h hex_value_zero)
qed

lemma parse_chars_escape:
  "parse_chars (escape_char c @ X) = map_option (\<lambda>(r, t). (c # r, t)) (parse_chars X)"
proof -
  consider (special) "c = CHR 0x22 \<or> c = CHR 0x5C \<or> c = CHR 0x08 \<or> c = CHR 0x09
                      \<or> c = CHR 0x0A \<or> c = CHR 0x0C \<or> c = CHR 0x0D"
    | (control) "c \<noteq> CHR 0x22" "c \<noteq> CHR 0x5C" "c \<noteq> CHR 0x08" "c \<noteq> CHR 0x09"
                "c \<noteq> CHR 0x0A" "c \<noteq> CHR 0x0C" "c \<noteq> CHR 0x0D" "(of_char c :: nat) < 32"
    | (plain) "c \<noteq> CHR 0x22" "c \<noteq> CHR 0x5C" "c \<noteq> CHR 0x08" "c \<noteq> CHR 0x09"
                "c \<noteq> CHR 0x0A" "c \<noteq> CHR 0x0C" "c \<noteq> CHR 0x0D" "\<not> (of_char c :: nat) < 32"
    by blast
  then show ?thesis
  proof cases
    case special
    then show ?thesis
      by (auto simp: escape_char_def unescape_def)
  next
    case control
    then have "escape_char c = [CHR 0x5C, CHR ''u'', CHR ''0'', CHR ''0'',
                        hex_digit (of_char c div 16), hex_digit (of_char c mod 16)]"
      by (simp add: escape_char_def)
    with control(8) show ?thesis
      using parse_chars_control [of c X] by simp
  next
    case plain
    then show ?thesis
      by (simp add: escape_char_def)
  qed
qed

lemma parse_chars_json_string:
  "parse_chars (concat (map escape_char s) @ CHR 0x22 # rest) = Some (s, rest)"
  by (induction s) (simp_all add: parse_chars_escape)

lemma delim_number_end: "delim rest \<Longrightarrow> number_end rest"
  by (auto simp: delim_def number_end_def is_digit_def)

lemma delim_skip_ws: "delim rest \<Longrightarrow> skip_ws rest = rest"
  by (cases rest) (auto simp: delim_def skip_ws_def is_ws_def)

lemma delim_Cons [simp]:
  "delim (CHR '','' # s)" "delim (CHR '']'' # s)" "delim (CHR ''}'' # s)" "delim []"
  by (simp_all add: delim_def)

lemma skip_ws_Cons: "\<not> is_ws c \<Longrightarrow> skip_ws (c # s) = c # s"
  by (simp add: skip_ws_def)

lemma join_comma_Cons:
  "join_comma (t # ts) = (if ts = [] then t else t @ CHR '','' # join_comma ts)"
  by (cases ts) simp_all

lemma value_start_not_ws: "value_start c \<Longrightarrow> \<not> is_ws c \<and> c \<noteq> CHR '']'' \<and> c \<noteq> CHR ''}''"
  by (auto simp: value_start_def is_ws_def is_digit_def)

lemma int_to_str_start: "int_to_str i \<noteq> [] \<and> value_start (hd (int_to_str i))"
  using hd_nat_to_str_digit by (simp add: int_to_str_def value_start_def)

lemma render_start:
  assumes "orjson_render opts v = Some t"
  shows "t \<noteq> [] \<and> value_start (hd t)"
  using assms int_to_str_start
  by (cases v) (auto simp: value_start_def json_string_def split: if_splits)

lemma dict_set_fresh: "k \<notin> fst ` set d \<Longrightarrow> dict_set k v d = d @ [(k, v)]"
  by (induction d) auto

lemma foldl_dict_set_distinct:
  "distinct (map fst (acc @ kvs)) \<Longrightarrow>
     foldl (\<lambda>d kv. dict_set (fst kv) (snd kv) d) acc kvs = acc @ kvs"
proof (induction kvs arbitrary: acc)
  case Nil
  then show ?case by simp
next
  case (Cons kv kvs)
  from Cons.prems have f: "fst kv \<notin> fst ` set acc" by auto
  from Cons.prems have "distinct (map fst ((acc @ [kv]) @ kvs))" by simp
  from Cons.IH [OF this] f show ?case
    by (simp add: dict_set_fresh)
qed

lemma dict_of_pairs_distinct: "distinct (map fst kvs) \<Longrightarrow> dict_of_pairs kvs = kvs"
  using foldl_dict_set_distinct [of "[]" kvs] by (simp add: dict_of_pairs_def)

lemma parse_value_string:
  "parse_value (Suc n) (json_string s @ rest) = Some (PyStr s, rest)"
  by (simp add: json_string_def skip_ws_def is_ws_def parse_chars_json_string)

lemma parse_value_literals:
  "parse_value (Suc n) (''null'' @ rest) = Some (PyNone, rest)"
  "parse_value (Suc n) (''true'' @ rest) = Some (PyBool True, rest)"
  "parse_value (Suc n) (''false'' @ rest) = Some (PyBool False, rest)"
  by (simp_all add: skip_ws_def is_ws_def)

lemma parse_value_int:
  assumes "- (2 ^ 63) \<le> i" and "i < 2 ^ 64" and "delim rest"
  shows "parse_value (Suc n) (int_to_str i @ rest) = Some (PyInt i, rest)"
proof -
  obtain c t where ct: "int_to_str i = c # t"
    using int_to_str_start [of i] by (cases "int_to_str i") auto
  have "hd (int_to_str i) = CHR ''-'' \<or> is_digit (hd (int_to_str i))"
    using hd_nat_to_str_digit [of "nat i"] by (simp add: int_to_str_def)
  with ct have c: "c = CHR ''-'' \<or> is_digit c" by simp
  then have n: "\<not> is_ws c" "c \<noteq> CHR 0x22" "c \<noteq> CHR ''[''" "c \<noteq> CHR ''{''" "c \<noteq> CHR ''n''"
    "c \<noteq> CHR ''t''" "c \<noteq> CHR ''f''"
    by (auto simp: is_digit_def is_ws_def)
  have p: "parse_number (c # t @ rest) = Some (PyInt i, rest)"
    using parse_number_int_to_str [OF assms(1,2) delim_number_end [OF assms(3)]] ct by simp
  show ?thesis
    using n p by (simp add: ct skip_ws_Cons)
qed

lemma parse_elements_render:
  assumes IH: "\<And>x n t rest. x \<in> set xs \<Longrightarrow> json_native x \<Longrightarrow> orjson_render opts x = Some t \<Longrightarrow>
                 fuel_of x \<le> n \<Longrightarrow> delim rest \<Longrightarrow> parse_value n (t @ rest) = Some (x, rest)"
      and "xs \<noteq> []"
      and "list_all json_native xs"
      and "those (map (orjson_render opts) xs) = Some ts"
      and "sum_list (map (\<lambda>x. Suc (fuel_of x)) xs) \<le> n"
  shows "parse_elements n (join_comma ts @ CHR '']'' # rest) = Some (xs, rest)"
  using assms
proof (induction xs arbitrary: ts n)
  case Nil
  then show ?case by simp
next
  case (Cons x xs)
  from Cons.prems(4) obtain t ts' where t: "orjson_render opts x = Some t"
    and ts': "those (map (orjson_render opts) xs) = Some ts'" and ts: "ts = t # ts'"
    by (auto split: option.splits)
  from Cons.prems(5) obtain n' where n: "n = Suc n'" and fx: "fuel_of x \<le> n'"
    and fxs: "sum_list (map (\<lambda>x. Suc (fuel_of x)) xs) \<le> n'"
    by (cases n) auto
  from Cons.prems(3) have nx: "json_native x" and nxs: "list_all json_native xs" by simp_all
  have px: "\<And>rest'. delim rest' \<Longrightarrow> parse_value n' (t @ rest') = Some (x, rest')"
    using Cons.prems(1) [OF _ nx t fx] by simp
  show ?case
  proof (cases "xs = []")
    case True
    with ts' ts have "join_comma ts = t" by simp
    then show ?thesis
      using px [of "CHR '']'' # rest"] True
      by (simp add: n skip_ws_def is_ws_def)
  next
    case False
    with ts' have "ts' \<noteq> []" by (cases xs) (auto split: option.splits)
    with ts have j: "join_comma ts = t @ CHR '','' # join_comma ts'"
      by (simp add: join_comma_Cons)
    have "parse_elements n' (join_comma ts' @ CHR '']'' # rest) = Some (xs, rest)"
      using Cons.IH [OF _ False nxs ts' fxs] Cons.prems(1) by simp
    then show ?thesis
      using px [of "CHR '','' # join_comma ts' @ CHR '']'' # rest"]
      by (simp add: n j skip_ws_def is_ws_def)
  qed
qed

lemma parse_members_render:
  assumes IH: "\<And>kv n t rest. kv \<in> set kvs \<Longrightarrow> json_native (snd kv) \<Longrightarrow>
                 orjson_render opts (snd kv) = Some t \<Longrightarrow>
                 fuel_of (snd kv) \<le> n \<Longrightarrow> delim rest \<Longrightarrow>
                 parse_value n (t @ rest) = Some (snd kv, rest)"
      and "kvs \<noteq> []"
      and "list_all (\<lambda>kv. json_native (snd kv)) kvs"
      and "those (map (\<lambda>kv. map_option (\<lambda>s. json_string (fst kv) @ '':'' @ s)
                                (orjson_render opts (snd kv))) kvs) = Some ms"
      and "sum_list (map (\<lambda>kv. Suc (fuel_of (snd kv))) kvs) \<le> n"
  shows "parse_members n (join_comma ms @ CHR ''}'' # rest) = Some (kvs, rest)"
  using assms
proof (induction kvs arbitrary: ms n)
  case Nil
  then show ?case by simp
next
  case (Cons kv kvs)
  obtain k v where kv: "kv = (k, v)" by (cases kv)
  from Cons.prems(4) obtain t ms' where t: "orjson_render opts v = Some t"
    and ms': "those (map (\<lambda>kv. map_option (\<lambda>s. json_string (fst kv) @ '':'' @ s)
                                (orjson_render opts (snd kv))) kvs) = Some ms'"
    and ms: "ms = (json_string k @ '':'' @ t) # ms'"
    by (auto simp: kv split: option.splits)
  from Cons.prems(5) obtain n' where n: "n = Suc n'" and fx: "fuel_of v \<le> n'"
    and fxs: "sum_list (map (\<lambda>kv. Suc (fuel_of (snd kv))) kvs) \<le> n'"
    by (cases n) (auto simp: kv)
  from Cons.prems(3) have nx: "json_native v"
    and nxs: "list_all (\<lambda>kv. json_native (snd kv)) kvs" by (simp_all add: kv)
  have px: "\<And>rest'. delim rest' \<Longrightarrow> parse_value n' (t @ rest') = Some (v, rest')"
    using Cons.prems(1) [where kv = kv and n = n' and t = t] nx t fx by (simp add: kv)
  have key: "\<And>X. json_string k @ CHR '':'' # X
                  = CHR 0x22 # concat (map escape_char k) @ CHR 0x22 # CHR '':'' # X"
    by (simp add: json_string_def)
  show ?case
  proof (cases "kvs = []")
    case True
    with ms' ms have "join_comma ms = json_string k @ '':'' @ t" by simp
    then show ?thesis
      using px [of "CHR ''}'' # rest"] True
      by (simp add: n key kv skip_ws_def is_ws_def parse_chars_json_string)
  next
    case False
    with ms' have "ms' \<noteq> []" by (cases kvs) (auto split: option.splits)
    with ms have j: "join_comma ms = (json_string k @ '':'' @ t) @ CHR '','' # join_comma ms'"
      by (simp add: join_comma_Cons)
    have "parse_members n' (join_comma ms' @ CHR ''}'' # rest) = Some (kvs, rest)"
      using Cons.IH [OF _ False nxs ms' fxs] Cons.prems(1) by simp
    then show ?thesis
      using px [of "CHR '','' # join_comma ms' @ CHR ''}'' # rest"]
      by (simp add: n j key kv skip_ws_def is_ws_def parse_chars_json_string)
  qed
qed

declare parse_value.simps [simp del]

lemma skip_ws_start:
  assumes "X \<noteq> []" and "value_start (hd X)"
  shows "skip_ws (X @ Y) = hd X # tl X @ Y \<and> hd X \<noteq> CHR '']'' \<and> hd X \<noteq> CHR ''}''"
  using assms value_start_not_ws [of "hd X"]
  by (cases X) (simp_all add: skip_ws_def)

lemma join_comma_start:
  assumes "ts \<noteq> []" and "hd ts \<noteq> []"
  shows "join_comma ts \<noteq> [] \<and> hd (join_comma ts) = hd (hd ts)"
  using assms by (cases ts) (auto simp: join_comma_Cons)

lemma parse_value_render:
  "json_native v \<Longrightarrow> orjson_render opts v = Some t \<Longrightarrow> fuel_of v \<le> n \<Longrightarrow> delim rest \<Longrightarrow>
     parse_value n (t @ rest) = Some (v, rest)"
proof (induction v arbitrary: n t rest)
  case PyNone
  then obtain n' where "n = Suc n'" "t = ''null''" by (cases n) auto
  then show ?case using parse_value_literals(1) [of n' rest] by simp
next
  case (PyBool b)
  then obtain n' where "n = Suc n'" "t = (if b then ''true'' else ''false'')" by (cases n) auto
  then show ?case
    using parse_value_literals(2) [of n' rest] parse_value_literals(3) [of n' rest]
    by (cases b) simp_all
next
  case (PyInt i)
  then show ?case by (cases n) (auto simp: parse_value_int)
next
  case (PyStr s)
  then show ?case by (cases n) (auto simp: parse_value_string)
next
  case (PyUUID u)
  then show ?case by simp
next
  case (PyDatetime d)
  then show ?case by simp
next
  case (PyList xs)
  from PyList.prems(2) obtain ts where ts: "those (map (orjson_render opts) xs) = Some ts"
    and t: "t = CHR ''['' # join_comma ts @ '']''"
    by auto
  from PyList.prems(3) obtain n' where n: "n = Suc n'"
    and f: "sum_list (map (\<lambda>x. Suc (fuel_of x)) xs) \<le> n'"
    by (cases n) auto
  show ?case
  proof (cases "xs = []")
    case True
    with ts t show ?thesis by (simp add: n parse_value.simps skip_ws_def is_ws_def)
  next
    case False
    then obtain x xs' where xs: "xs = x # xs'" by (cases xs) auto
    with ts obtain t0 ts' where t0: "orjson_render opts x = Some t0" and "ts = t0 # ts'"
      by (auto split: option.splits)
    with render_start [OF t0] have "join_comma ts \<noteq> []" "value_start (hd (join_comma ts))"
      using join_comma_start [of ts] by simp_all
    from skip_ws_start [OF this, of "CHR '']'' # rest"]
    have s: "skip_ws (join_comma ts @ CHR '']'' # rest)
               = hd (join_comma ts) # tl (join_comma ts) @ CHR '']'' # rest"
      and h: "hd (join_comma ts) \<noteq> CHR '']''" by simp_all
    have e: "parse_elements n' (join_comma ts @ CHR '']'' # rest) = Some (xs, rest)"
      using parse_elements_render [where xs = xs and opts = opts and n = n' and rest = rest and ts = ts] PyList.IH False PyList.prems(1) ts f
      by simp
    show ?thesis
      using s h e by (simp add: n t parse_value.simps skip_ws_def is_ws_def)
  qed
next
  case (PyDict kvs)
  let ?member = "\<lambda>kv. map_option (\<lambda>s. json_string (fst kv) @ '':'' @ s) (orjson_render opts (snd kv))"
  from PyDict.prems(2) obtain ms where ms: "those (map ?member kvs) = Some ms"
    and t: "t = CHR ''{'' # join_comma ms @ ''}''"
    by auto
  from PyDict.prems(3) obtain n' where n: "n = Suc n'"
    and f: "sum_list (map (\<lambda>kv. Suc (fuel_of (snd kv))) kvs) \<le> n'"
    by (cases n) auto
  from PyDict.prems(1) have d: "distinct (map fst kvs)"
    and nat: "list_all (\<lambda>kv. json_native (snd kv)) kvs" by simp_all
  show ?case
  proof (cases "kvs = []")
    case True
    with ms t show ?thesis
      by (simp add: n parse_value.simps skip_ws_def is_ws_def dict_of_pairs_def)
  next
    case False
    then obtain kv kvs' where kvs: "kvs = kv # kvs'" by (cases kvs) auto
    with ms obtain t0 ms' where "ms = (json_string (fst kv) @ '':'' @ t0) # ms'"
      by (auto split: option.splits)
    then have "join_comma ms \<noteq> []" "value_start (hd (join_comma ms))"
      using join_comma_start [of ms] by (simp_all add: json_string_def value_start_def)
    from skip_ws_start [OF this, of "CHR ''}'' # rest"]
    have s: "skip_ws (join_comma ms @ CHR ''}'' # rest)
               = hd (join_comma ms) # tl (join_comma ms) @ CHR ''}'' # rest"
      and h: "hd (join_comma ms) \<noteq> CHR ''}''" by simp_all
    have ih: "\<And>kv n t rest. kv \<in> set kvs \<Longrightarrow> json_native (snd kv) \<Longrightarrow>
                 orjson_render opts (snd kv) = Some t \<Longrightarrow>
                 fuel_of (snd kv) \<le> n \<Longrightarrow> delim rest \<Longrightarrow>
                 parse_value n (t @ rest) = Some (snd kv, rest)"
    proof -
      fix kv n t rest
      assume a: "kv \<in> set kvs" "json_native (snd kv)" "orjson_render opts (snd kv) = Some t"
        "fuel_of (snd kv) \<le> n" "delim rest"
      have b: "snd kv \<in> Basic_BNFs.snds kv" by (cases kv) simp
      show "parse_value n (t @ rest) = Some (snd kv, rest)"
        by (rule PyDict.IH [OF a(1) b a(2-5)])
    qed
    have e: "parse_members n' (join_comma ms @ CHR ''}'' # rest) = Some (kvs, rest)"
      using parse_members_render [where kvs = kvs and opts = opts and n = n' and rest = rest and ms = ms] ih False nat ms f
      by simp
    show ?thesis
      using s h e d
      by (simp add: n t parse_value.simps skip_ws_def is_ws_def dict_of_pairs_distinct)
  qed
qed

lemma length_join_comma_Cons:
  "length (join_comma (t # ts)) = (if ts = [] then length t else Suc (length t + length (join_comma ts)))"
  by (simp add: join_comma_Cons)

lemma fuel_elements:
  assumes "\<And>x t. x \<in> set xs \<Longrightarrow> orjson_render opts x = Some t \<Longrightarrow> fuel_of x \<le> length t"
      and "those (map (orjson_render opts) xs) = Some ts"
  shows "sum_list (map (\<lambda>x. Suc (fuel_of x)) xs) \<le> Suc (length (join_comma ts))"
  using assms
proof (induction xs arbitrary: ts)
  case Nil
  then show ?case by simp
next
  case (Cons x xs)
  from Cons.prems(2) obtain t ts' where t: "orjson_render opts x = Some t"
    and ts': "those (map (orjson_render opts) xs) = Some ts'" and ts: "ts = t # ts'"
    by (auto split: option.splits)
  have fx: "fuel_of x \<le> length t" using Cons.prems(1) t by simp
  have "sum_list (map (\<lambda>x. Suc (fuel_of x)) xs) \<le> Suc (length (join_comma ts'))"
    using Cons.IH [OF _ ts'] Cons.prems(1) by simp
  moreover have "ts' = [] \<Longrightarrow> xs = []" using ts' by (cases xs) (auto split: option.splits)
  ultimately show ?case
    using fx by (auto simp: ts length_join_comma_Cons)
qed

lemma fuel_members:
  assumes "\<And>kv t. kv \<in> set kvs \<Longrightarrow> orjson_render opts (snd kv) = Some t \<Longrightarrow>
             fuel_of (snd kv) \<le> length t"
      and "those (map (\<lambda>kv. map_option (\<lambda>s. json_string (fst kv) @ '':'' @ s)
                                (orjson_render opts (snd kv))) kvs) = Some ms"
  shows "sum_list (map (\<lambda>kv. Suc (fuel_of (snd kv))) kvs) \<le> Suc (length (join_comma ms))"
  using assms
proof (induction kvs arbitrary: ms)
  case Nil
  then show ?case by simp
next
  case (Cons kv kvs)
  from Cons.prems(2) obtain t ms' where t: "orjson_render opts (snd kv) = Some t"
    and ms': "those (map (\<lambda>kv. map_option (\<lambda>s. json_string (fst kv) @ '':'' @ s)
                                (orjson_render opts (snd kv))) kvs) = Some ms'"
    and ms: "ms = (json_string (fst kv) @ '':'' @ t) # ms'"
    by (auto split: option.splits)
  have fx: "fuel_of (snd kv) \<le> length t" using Cons.prems(1) t by simp
  have "sum_list (map (\<lambda>kv. Suc (fuel_of (snd kv))) kvs) \<le> Suc (length (join_comma ms'))"
    using Cons.IH [OF _ ms'] Cons.prems(1) by simp
  moreover have "ms' = [] \<Longrightarrow> kvs = []" using ms' by (cases kvs) (auto split: option.splits)
  ultimately show ?case
    using fx by (auto simp: ms length_join_comma_Cons)
qed

lemma fuel_le_length: "orjson_render opts v = Some t \<Longrightarrow> fuel_of v \<le> length t"
proof (induction v arbitrary: t)
  case (PyInt i)
  then show ?case using int_to_str_start [of i] by (auto simp: Suc_le_eq split: if_splits)
next
  case (PyList xs)
  from PyList.prems obtain ts where ts: "those (map (orjson_render opts) xs) = Some ts"
    and t: "t = CHR ''['' # join_comma ts @ '']''"
    by auto
  from fuel_elements [OF _ ts] PyList.IH show ?case by (simp add: t)
next
  case (PyDict kvs)
  from PyDict.prems obtain ms where
    ms: "those (map (\<lambda>kv. map_option (\<lambda>s. json_string (fst kv) @ '':'' @ s)
                                (orjson_render opts (snd kv))) kvs) = Some ms"
    and t: "t = CHR ''{'' # join_comma ms @ ''}''"
    by auto
  have "\<And>kv t. kv \<in> set kvs \<Longrightarrow> orjson_render opts (snd kv) = Some t \<Longrightarrow>
             fuel_of (snd kv) \<le> length t"
  proof -
    fix kv t assume a: "kv \<in> set kvs" "orjson_render opts (snd kv) = Some t"
    have b: "snd kv \<in> Basic_BNFs.snds kv" by (cases kv) simp
    show "fuel_of (snd kv) \<le> length t" by (rule PyDict.IH [OF a(1) b a(2)])
  qed
  from fuel_members [OF this ms] show ?case by (simp add: t)
qed (auto simp: json_string_def split: if_splits)

lemma orjson_loads_render:
  assumes "json_native v" and "orjson_render opts v = Some t"
  shows "orjson_loads t = Some v"
proof -
  have "fuel_of v \<le> Suc (length t)"
    using fuel_le_length [OF assms(2)] by simp
  from parse_value_render [OF assms this, of "[]"]
  show ?thesis by (simp add: orjson_loads_def skip_ws_def)
qed

lemma those_map_Some:
  assumes "\<And>x. x \<in> set xs \<Longrightarrow> \<exists>t. f x = Some t"
  shows "\<exists>ts. those (map f xs) = Some ts"
  using assms
proof (induction xs)
  case Nil
  then show ?case by simp
next
  case (Cons x xs)
  then obtain t ts where "f x = Some t" "those (map f xs) = Some ts"
    by (metis list.set_intros(1,2))
  then show ?case by simp
qed

lemma render_native: "json_native v \<Longrightarrow> \<exists>t. orjson_render opts v = Some t"
proof (induction v)
  case (PyList xs)
  then have "\<And>x. x \<in> set xs \<Longrightarrow> \<exists>t. orjson_render opts x = Some t"
    by (simp add: list_all_iff)
  from those_map_Some [of xs "orjson_render opts", OF this] show ?case by auto
next
  case (PyDict kvs)
  have "\<And>kv. kv \<in> set kvs \<Longrightarrow>
          \<exists>t. map_option (\<lambda>s. json_string (fst kv) @ '':'' @ s) (orjson_render opts (snd kv)) = Some t"
  proof -
    fix kv assume a: "kv \<in> set kvs"
    have b: "snd kv \<in> Basic_BNFs.snds kv" by (cases kv) simp
    from PyDict.prems a have "json_native (snd kv)" by (simp add: list_all_iff)
    from PyDict.IH [OF a b this] show
      "\<exists>t. map_option (\<lambda>s. json_string (fst kv) @ '':'' @ s) (orjson_render opts (snd kv)) = Some t"
      by auto
  qed
  from those_map_Some [of kvs _, OF this] show ?case by auto
qed simp_all

lemma utc_inner_item_native: "json_native (snd kv) \<Longrightarrow> utc_inner_item kv = kv"
  by (cases "snd kv") (simp_all add: utc_inner_item_def)

lemma utc_list_element_native: "json_native v \<Longrightarrow> utc_list_element v = v"
  by (cases v) (simp_all add: utc_list_element_def utc_inner_item_native list_all_iff map_idI)

lemma utc_item_native: "json_native (snd kv) \<Longrightarrow> utc_item kv = kv"
  by (cases "snd kv")
     (auto simp: utc_item_def utc_list_element_native list_all_iff map_idI prod_eq_iff)

lemma orjson_dumps_loads:
  assumes "json_native (PyDict d)"
  shows "\<exists>t. orjson_dumps d = Inr t \<and> orjson_loads t = Some (PyDict d)"
proof -
  from assms have m: "map utc_item d = d"
    by (simp add: list_all_iff utc_item_native map_idI)
  obtain t where t: "orjson_render service_options (PyDict d) = Some t"
    using render_native [OF assms] by blast
  have "orjson_dumps d = Inr t"
    unfolding orjson_dumps_def orjson_lib_dumps_def m t by simp
  moreover have "orjson_loads t = Some (PyDict d)"
    using orjson_loads_render [OF assms t] .
  ultimately show ?thesis by blast
qed

text \<open>
  C9, as amended. Every failure envelope is serialized, and parsing the text gives back the
  dictionary of the envelope; the same holds for every success envelope whose payload is made
  of JSON values only (\<open>json_native\<close>).
\<close>

theorem envelope_round_trip:
  "(\<exists>t. ResponseFailure_json f = Inr t \<and> orjson_loads t = Some (PyDict (ResponseFailure_dict f)))
   \<and> (json_native (success_result s) \<longrightarrow>
        (\<exists>t. ResponseSuccess_json s = Inr t
            \<and> orjson_loads t = Some (PyDict (ResponseSuccess_dict s))))"
proof -
  have "json_native (PyDict (ResponseFailure_dict f))"
    by (cases "failure_result f") (simp_all add: ResponseFailure_dict_def ErrorResult_dict_def)
  from orjson_dumps_loads [OF this]
  have a: "\<exists>t. ResponseFailure_json f = Inr t
             \<and> orjson_loads t = Some (PyDict (ResponseFailure_dict f))"
    by (simp add: ResponseFailure_json_def model_json_def BaseClass_def)
  have b: "json_native (success_result s) \<longrightarrow>
        (\<exists>t. ResponseSuccess_json s = Inr t
            \<and> orjson_loads t = Some (PyDict (ResponseSuccess_dict s)))"
  proof
    assume "json_native (success_result s)"
    then have "json_native (PyDict (ResponseSuccess_dict s))"
      by (simp add: ResponseSuccess_dict_def)
    from orjson_dumps_loads [OF this]
    show "\<exists>t. ResponseSuccess_json s = Inr t
            \<and> orjson_loads t = Some (PyDict (ResponseSuccess_dict s))"
      by (simp add: ResponseSuccess_json_def model_json_def BaseClass_def)
  qed
  from a b show ?thesis by blast
qed

theorem envelope_round_trip_witness:
  \<open>ResponseSuccess_json sample_success
     = Inr ''{"success":true,"result":{"name":"Alpha","tags":[-7,null]}}''
   \<and> orjson_loads ''{"success":true,"result":{"name":"Alpha","tags":[-7,null]}}''
     = Some (PyDict [(''success'', PyBool True),
                     (''result'', PyDict [(''name'', PyStr ''Alpha''),
                                          (''tags'', PyList [PyInt (- 7), PyNone])])])\<close>
proof -
  have j: \<open>ResponseSuccess_json sample_success
     = Inr ''{"success":true,"result":{"name":"Alpha","tags":[-7,null]}}''\<close>
    by (simp add: ResponseSuccess_json_def model_json_def BaseClass_def orjson_dumps_def
        orjson_lib_dumps_def ResponseSuccess_dict_def utc_item_def utc_list_element_def
        sample_success_def json_string_def escape_char_def int_to_str_def nat_to_str.simps
        char_of_def bit_0)
  have n: "json_native (success_result sample_success)"
    by (simp add: sample_success_def)
  from envelope_round_trip [of undefined sample_success] n j
  show ?thesis
    by (simp add: ResponseSuccess_dict_def sample_success_def)
qed

subsection \<open>The response of the validation pipeline\<close>







end
